theory Spec2Isabelle
  imports Complex_Main "HOL-Library.Word" "HOL-Library.Sublist"
begin

section \<open>Strings and values\<close>

text \<open>
  A JavaScript string is a sequence of UTF-16 code units; \<open>length\<close>, \<open>substring\<close> and
  \<open>includes\<close> all count code units. The model keeps that: a string is a list of 16-bit
  words. \<open>js\<close> embeds an ASCII literal of the source.
\<close>

type_synonym js_string = "16 word list"

definition js :: "string \<Rightarrow> js_string" where
  "js s = map (\<lambda>c. of_nat (of_char c)) s"

text \<open>\<open>s.includes(p)\<close>: \<open>p\<close> occurs in \<open>s\<close> as a contiguous run.\<close>

definition js_includes :: "js_string \<Rightarrow> js_string \<Rightarrow> bool" where
  "js_includes s p = sublist p s"

section \<open>Data model (types.ts)\<close>

datatype Severity = critical | suggestion

record Segment =
  seg_text :: js_string
  isError :: bool
  severity :: "Severity option"
  correction :: "js_string option"
  reason :: "js_string option"

record Explanation =
  overview :: js_string
  improvements :: "js_string list"

record WordData =
  word_text :: js_string
  ipa :: js_string

record GrammarAnalysis =
  segments :: "Segment list"
  correctedSentence :: js_string
  correctedWords :: "WordData list option"
  explanation :: Explanation

datatype RewriteStyle =
  Professional | Casual | Academic | Creative | Formal | Informal
  | Analytical | Narrative | Persuasive | Descriptive

fun style_name :: "RewriteStyle \<Rightarrow> js_string" where
  "style_name Professional = js ''Professional''"
| "style_name Casual = js ''Casual''"
| "style_name Academic = js ''Academic''"
| "style_name Creative = js ''Creative''"
| "style_name Formal = js ''Formal''"
| "style_name Informal = js ''Informal''"
| "style_name Analytical = js ''Analytical''"
| "style_name Narrative = js ''Narrative''"
| "style_name Persuasive = js ''Persuasive''"
| "style_name Descriptive = js ''Descriptive''"

record RewriteAnalysis =
  originalText :: js_string
  rewrittenText :: js_string
  rewrittenWords :: "WordData list option"
  style :: RewriteStyle
  rewrite_explanation :: Explanation

datatype EntryType = grammar | rewrite | dictionary

text \<open>
  \<open>HistoryEntry\<close>. The fields \<open>id\<close> and \<open>type\<close> of the source are \<open>entry_id\<close> and
  \<open>entry_type\<close> here; the optional fields are options. Timestamps are epoch milliseconds
  and the two counts are integral numbers, all far below \<open>2^53\<close>, where JavaScript's
  numbers are exact integers.
\<close>

record HistoryEntry =
  entry_id :: js_string
  timestamp :: int
  textSnippet :: js_string
  fullText :: "js_string option"
  errorCount :: int
  suggestionCount :: int
  isPerfect :: bool
  entry_type :: "EntryType option"
  rewriteStyle :: "js_string option"

record UserStats =
  totalChecks :: int
  totalErrors :: int
  accuracyRate :: int
  perfectRuns :: int

text \<open>
  \<open>AppState\<close> is the persisted snapshot; its fields carry the prefix \<open>state_\<close>, the
  names without prefix being those of the \<open>App\<close> component's own state below.
\<close>

record AppState =
  state_inputText :: js_string
  state_grammarResult :: "GrammarAnalysis option"
  state_rewriteResult :: "RewriteAnalysis option"
  state_colorScheme :: js_string

section \<open>The persistent store (storageService.ts)\<close>

text \<open>
  \<open>localStorage\<close> is used under six fixed keys, pairwise different (\<open>key_name_inj\<close>
  below), so that a write under one key leaves the items under the others alone. The
  model is a record with one field per key, \<open>None\<close> for an absent key. \<open>setItem\<close> is taken
  to succeed.

  The two JSON-valued items are kept as what \<open>JSON.parse\<close> makes of the stored text:
  \<open>Doc v\<close> is a text that parses to the value \<open>v\<close> (and \<open>JSON.stringify v\<close> is such a
  text), \<open>Garbled s\<close> is a text \<open>s\<close> that \<open>JSON.parse\<close> rejects, or the empty text.

  The value of the history text is an array or not. Of an array the model covers the
  elements that are history entries (objects of the declared type \<open>HistoryEntry\<close>) and
  the elements that are \<open>null\<close>, on which every property read throws. \<open>NonArr\<close> is a value
  that is neither an array nor iterable: \<open>null\<close>, a number, a boolean or an object.
  Texts that parse to a string, and arrays with elements of yet another shape, are
  outside the model.
\<close>

datatype elem = Entry HistoryEntry | Null

datatype history_json = Arr "elem list" | NonArr

text \<open>The entries of an array without \<open>null\<close> elements.\<close>

fun entries_of :: "elem list \<Rightarrow> HistoryEntry list" where
  "entries_of [] = []"
| "entries_of (Entry e # xs) = e # entries_of xs"
| "entries_of (Null # xs) = entries_of xs"

datatype js_exception = TypeError | SyntaxError

datatype storage_key =
  STORAGE_KEY | STATE_KEY | API_KEY_STORAGE_KEY | VERSION_KEY | THEME_KEY | COLOR_SCHEME_KEY

fun key_name :: "storage_key \<Rightarrow> string" where
  "key_name STORAGE_KEY = ''grammarguard_history''"
| "key_name STATE_KEY = ''grammarguard_app_state''"
| "key_name API_KEY_STORAGE_KEY = ''grammarguard_api_key''"
| "key_name VERSION_KEY = ''grammarguard_version''"
| "key_name THEME_KEY = ''grammarguard_theme''"
| "key_name COLOR_SCHEME_KEY = ''grammarguard_color_scheme''"

definition CURRENT_VERSION :: js_string where
  "CURRENT_VERSION = js ''1.0.3''"

datatype 'a item = Garbled js_string | Doc 'a

record local_storage =
  grammarguard_history :: "history_json item option"
  grammarguard_app_state :: "AppState item option"
  grammarguard_api_key :: "js_string option"
  grammarguard_version :: "js_string option"
  grammarguard_theme :: "js_string option"
  grammarguard_color_scheme :: "js_string option"

text \<open>\<open>getHistory\<close> returns what \<open>JSON.parse\<close> gives, and the empty array when the item is
  absent or empty or does not parse.\<close>

definition getHistory :: "local_storage \<Rightarrow> history_json" where
  "getHistory ls =
     (case grammarguard_history ls of
        None \<Rightarrow> Arr []
      | Some (Garbled s) \<Rightarrow> Arr []
      | Some (Doc v) \<Rightarrow> v)"

text \<open>
  The three writers. \<open>crypto.randomUUID()\<close> and \<open>Date.now()\<close> are inputs (\<open>uuid\<close>,
  \<open>now\<close>). \<open>a || b\<close> on strings takes \<open>b\<close> when \<open>a\<close> is empty. The spread
  \<open>[newEntry, ...history]\<close> throws when \<open>history\<close> is not iterable; the writer's \<open>catch\<close>
  then logs to the console and nothing is written.
\<close>

definition saveHistory ::
  "js_string \<Rightarrow> int \<Rightarrow> js_string \<Rightarrow> GrammarAnalysis \<Rightarrow> local_storage \<Rightarrow> local_storage" where
  "saveHistory uuid now txt analysis ls =
     (let history = getHistory ls;
          errorCount = length (filter (\<lambda>s. isError s \<and> (severity s = Some critical \<or> severity s = None))
                                 (segments analysis));
          suggestionCount = length (filter (\<lambda>s. isError s \<and> severity s = Some suggestion)
                                      (segments analysis));
          content = (if correctedSentence analysis \<noteq> [] then correctedSentence analysis else txt);
          newEntry = \<lparr> entry_id = uuid,
                       timestamp = now,
                       textSnippet = (if length content > 60 then take 60 content @ js ''...'' else content),
                       fullText = Some content,
                       errorCount = int errorCount,
                       suggestionCount = int suggestionCount,
                       isPerfect = (errorCount = 0 \<and> suggestionCount = 0),
                       entry_type = Some grammar,
                       rewriteStyle = None \<rparr>
      in case history of
           Arr xs \<Rightarrow> ls\<lparr>grammarguard_history := Some (Doc (Arr (Entry newEntry # xs)))\<rparr>
         | NonArr \<Rightarrow> ls)"

definition saveRewriteHistory ::
  "js_string \<Rightarrow> int \<Rightarrow> js_string \<Rightarrow> RewriteAnalysis \<Rightarrow> local_storage \<Rightarrow> local_storage" where
  "saveRewriteHistory uuid now txt analysis ls =
     (let history = getHistory ls;
          content = rewrittenText analysis;
          newEntry = \<lparr> entry_id = uuid,
                       timestamp = now,
                       textSnippet = (if length content > 60 then take 60 content @ js ''...'' else content),
                       fullText = Some content,
                       errorCount = 0,
                       suggestionCount = 0,
                       isPerfect = True,
                       entry_type = Some rewrite,
                       rewriteStyle = Some (style_name (style analysis)) \<rparr>
      in case history of
           Arr xs \<Rightarrow> ls\<lparr>grammarguard_history := Some (Doc (Arr (Entry newEntry # xs)))\<rparr>
         | NonArr \<Rightarrow> ls)"

definition saveDictionaryHistory :: "js_string \<Rightarrow> int \<Rightarrow> js_string \<Rightarrow> local_storage \<Rightarrow> local_storage" where
  "saveDictionaryHistory uuid now word ls =
     (let history = getHistory ls;
          newEntry = \<lparr> entry_id = uuid,
                       timestamp = now,
                       textSnippet = word,
                       fullText = Some word,
                       errorCount = 0,
                       suggestionCount = 0,
                       isPerfect = True,
                       entry_type = Some dictionary,
                       rewriteStyle = None \<rparr>
      in case history of
           Arr xs \<Rightarrow> ls\<lparr>grammarguard_history := Some (Doc (Arr (Entry newEntry # xs)))\<rparr>
         | NonArr \<Rightarrow> ls)"

definition clearHistory :: "local_storage \<Rightarrow> local_storage" where
  "clearHistory ls = ls\<lparr>grammarguard_history := None\<rparr>"

definition empty_storage :: local_storage where
  "empty_storage = \<lparr> grammarguard_history = None, grammarguard_app_state = None,
                      grammarguard_api_key = None, grammarguard_version = None,
                      grammarguard_theme = None, grammarguard_color_scheme = None \<rparr>"

subsection \<open>Statistics\<close>

text \<open>
  \<open>getStats\<close> divides two array lengths and multiplies by 100 in binary64 arithmetic
  before \<open>Math.round\<close>. A non-negative double is modelled by a pair \<open>(m, k)\<close> that stands
  for \<open>m / 2^k\<close>. \<open>round_to_double a b\<close> is the double nearest to the exact quotient
  \<open>a / b\<close> (round to nearest, ties to even): \<open>quantum_exp\<close> finds the exponent \<open>k\<close> of the
  quantum, the least one that brings the significand \<open>a \<cdot> 2^k / b\<close> up to \<open>2^52\<close>, capped
  at 1074 where the subnormal numbers begin. This is exact IEEE 754 rounding for
  quotients below \<open>2^53\<close>, which covers everything \<open>getStats\<close> computes (at most 100).
\<close>

type_synonym double = "nat \<times> nat"

function quantum_exp :: "nat \<Rightarrow> nat \<Rightarrow> nat \<Rightarrow> nat" where
  "quantum_exp a b k = (if b * 2 ^ 52 \<le> a * 2 ^ k \<or> 1074 \<le> k then k else quantum_exp a b (k + 1))"
  by pat_completeness auto
termination
  by (relation "measure (\<lambda>(a, b, k). 1074 - k)") auto

definition round_to_double :: "nat \<Rightarrow> nat \<Rightarrow> double" where
  "round_to_double a b =
     (let k = quantum_exp a b 0;
          n = a * 2 ^ k;
          q = n div b;
          r = n mod b;
          m = (if 2 * r < b then q else if b < 2 * r then q + 1 else if even q then q else q + 1)
      in (m, k))"

text \<open>\<open>p / t\<close> on two integers, \<open>x * c\<close> on a double and an integer, and \<open>Math.round\<close>
  (the integer \<open>\<lfloor>x + 1/2\<rfloor>\<close>).\<close>

definition double_div :: "nat \<Rightarrow> nat \<Rightarrow> double" where
  "double_div p t = round_to_double p t"

definition double_mul :: "double \<Rightarrow> nat \<Rightarrow> double" where
  "double_mul x c = round_to_double (fst x * c) (2 ^ snd x)"

definition Math_round :: "double \<Rightarrow> nat" where
  "Math_round x = (2 * fst x + 2 ^ snd x) div 2 ^ (snd x + 1)"

text \<open>The real number a double stands for.\<close>

definition double_value :: "double \<Rightarrow> real" where
  "double_value x = real (fst x) / 2 ^ snd x"

text \<open>
  \<open>getStats\<close> has no \<open>try\<close>: \<open>history.filter\<close> throws when the stored value is not an
  array, and the filter's \<open>h.type\<close> throws on a \<open>null\<close> element.
\<close>

definition getStats :: "local_storage \<Rightarrow> js_exception + UserStats" where
  "getStats ls =
     (case getHistory ls of
        NonArr \<Rightarrow> Inl TypeError
      | Arr xs \<Rightarrow>
          if Null \<in> set xs then Inl TypeError
          else
            (let history = entries_of xs;
                 grammarHistory = filter (\<lambda>h. entry_type h = Some grammar \<or> entry_type h = None) history;
                 totalChecks = length grammarHistory
             in if totalChecks = 0
                then Inr \<lparr> totalChecks = 0, totalErrors = 0, accuracyRate = 0, perfectRuns = 0 \<rparr>
                else
                  (let totalErrors = foldl (\<lambda>sum item. sum + errorCount item) 0 grammarHistory;
                       perfectRuns = length (filter (\<lambda>item. isPerfect item) grammarHistory)
                   in Inr \<lparr> totalChecks = int totalChecks,
                           totalErrors = totalErrors,
                           accuracyRate = int (Math_round (double_mul (double_div perfectRuns totalChecks) 100)),
                           perfectRuns = int perfectRuns \<rparr>)))"

subsection \<open>Export and import\<close>

text \<open>
  What \<open>JSON.parse\<close> makes of a backup file, as far as the model covers it: an array (of
  history entries and \<open>null\<close>s, as above), an object with its \<open>history\<close>, \<open>theme\<close>,
  \<open>colorScheme\<close> and \<open>version\<close> properties, \<open>null\<close>, or another primitive. The \<open>history\<close>
  of an object is such an array (\<open>IsArray\<close>) or anything that fails one of the two tests of
  \<open>parsed.history && Array.isArray(parsed.history)\<close>: absent, falsy, or not an array
  (\<open>NotArray\<close>). A file whose text \<open>JSON.parse\<close> rejects is \<open>Unparseable\<close>.
\<close>

datatype history_field = NotArray | IsArray "elem list"

datatype parsed_json =
    JArray "elem list"
  | JObject history_field "js_string option" "js_string option" "js_string option"
  | JNull
  | JPrimitive

datatype file_content = Unparseable | Parsed parsed_json

record import_result =
  success :: bool
  theme :: "js_string option"
  colorScheme_imported :: "js_string option"

text \<open>
  \<open>exportHistoryJSON\<close> parses the stored text, or \<open>'[]'\<close> when the item is absent or
  empty, outside any \<open>try\<close>, and puts the value, whatever it is, under \<open>history\<close>. The
  result is what the written file parses to.
\<close>

definition exportHistoryJSON :: "local_storage \<Rightarrow> js_exception + file_content" where
  "exportHistoryJSON ls =
     (let theme = grammarguard_theme ls;
          colorScheme = grammarguard_color_scheme ls
      in case grammarguard_history ls of
           None \<Rightarrow> Inr (Parsed (JObject (IsArray []) theme colorScheme (Some CURRENT_VERSION)))
         | Some (Garbled s) \<Rightarrow>
             (if s = [] then Inr (Parsed (JObject (IsArray []) theme colorScheme (Some CURRENT_VERSION)))
              else Inl SyntaxError)
         | Some (Doc (Arr xs)) \<Rightarrow> Inr (Parsed (JObject (IsArray xs) theme colorScheme (Some CURRENT_VERSION)))
         | Some (Doc NonArr) \<Rightarrow> Inr (Parsed (JObject NotArray theme colorScheme (Some CURRENT_VERSION))))"

text \<open>
  The merge step of \<open>importHistoryJSON\<close>, inside its \<open>try\<close>. \<open>current.map\<close> throws when
  the stored value is not an array, and \<open>x.id\<close> throws on a \<open>null\<close> element of the stored
  or of the incoming array; the \<open>catch\<close> then resolves \<open>success: false\<close> and nothing is
  written. \<open>Array.prototype.sort\<close> is stable, and the comparator
  \<open>b.timestamp - a.timestamp\<close> orders by descending timestamp: that is \<open>sort_key\<close> on the
  negated timestamp.
\<close>

definition import_failed :: import_result where
  "import_failed = \<lparr> success = False, theme = None, colorScheme_imported = None \<rparr>"

definition merge_import ::
  "elem list \<Rightarrow> js_string option \<Rightarrow> js_string option \<Rightarrow> local_storage
     \<Rightarrow> import_result \<times> local_storage" where
  "merge_import historyToMerge importedTheme importedColor ls =
     (case getHistory ls of
        NonArr \<Rightarrow> (import_failed, ls)
      | Arr current \<Rightarrow>
          if Null \<in> set current then (import_failed, ls)
          else if Null \<in> set historyToMerge then (import_failed, ls)
          else
            (let currentIds = set (map entry_id (entries_of current));
                 newEntries = filter (\<lambda>x. entry_id x \<noteq> [] \<and> entry_id x \<notin> currentIds)
                                (entries_of historyToMerge);
                 merged = sort_key (\<lambda>e. - timestamp e) (newEntries @ entries_of current)
             in (\<lparr> success = True, theme = importedTheme, colorScheme_imported = importedColor \<rparr>,
                 ls\<lparr>grammarguard_history := Some (Doc (Arr (map Entry merged)))\<rparr>)))"

fun importHistoryJSON :: "file_content \<Rightarrow> local_storage \<Rightarrow> import_result \<times> local_storage" where
  "importHistoryJSON Unparseable ls = (import_failed, ls)"
| "importHistoryJSON (Parsed (JArray h)) ls = merge_import h None None ls"
| "importHistoryJSON (Parsed (JObject (IsArray h) th col ver)) ls = merge_import h th col ls"
| "importHistoryJSON (Parsed (JObject NotArray th col ver)) ls = (import_failed, ls)"
| "importHistoryJSON (Parsed JNull) ls = (import_failed, ls)"
| "importHistoryJSON (Parsed JPrimitive) ls = (import_failed, ls)"

subsection \<open>The app snapshot and the schema version\<close>

definition saveAppState :: "AppState \<Rightarrow> local_storage \<Rightarrow> local_storage" where
  "saveAppState state ls = ls\<lparr>grammarguard_app_state := Some (Doc state)\<rparr>"

definition getAppState :: "local_storage \<Rightarrow> AppState option \<times> local_storage" where
  "getAppState ls =
     (let storedVersion = grammarguard_version ls
      in if storedVersion \<noteq> Some CURRENT_VERSION
         then (None, (ls\<lparr>grammarguard_app_state := None\<rparr>)\<lparr>grammarguard_version := Some CURRENT_VERSION\<rparr>)
         else (case grammarguard_app_state ls of
                 None \<Rightarrow> (None, ls)
               | Some (Garbled s) \<Rightarrow> (None, ls)
               | Some (Doc state) \<Rightarrow> (Some state, ls)))"

definition saveApiKey :: "js_string \<Rightarrow> local_storage \<Rightarrow> local_storage" where
  "saveApiKey k ls = ls\<lparr>grammarguard_api_key := Some k\<rparr>"

definition getStoredApiKey :: "local_storage \<Rightarrow> js_string option" where
  "getStoredApiKey ls = grammarguard_api_key ls"

definition removeApiKey :: "local_storage \<Rightarrow> local_storage" where
  "removeApiKey ls = ls\<lparr>grammarguard_api_key := None\<rparr>"

section \<open>The retry wrapper (geminiService.ts)\<close>

text \<open>
  \<open>retryWithBackoff\<close> reads four things off the value an attempt throws: its \<open>message\<close>,
  the JSON text of its \<open>error\<close> property when it has one, its own JSON text when it is an
  object, and its \<open>toString()\<close>. A thrown value is modelled by these four renderings
  (absent ones empty or \<open>None\<close>), which the wrapper concatenates into \<open>msg\<close>.
\<close>

record js_error =
  message :: js_string
  error_json :: "js_string option"
  object_json :: "js_string option"
  to_string :: js_string

datatype thrown = Rethrown js_error | NewError js_string

definition msg_of :: "js_error \<Rightarrow> js_string" where
  "msg_of error =
     message error
     @ (case error_json error of None \<Rightarrow> [] | Some j \<Rightarrow> j)
     @ (case object_json error of None \<Rightarrow> [] | Some j \<Rightarrow> j)
     @ to_string error"

text \<open>
  The operation \<open>fn\<close> is given by the outcome of each of its calls: \<open>fn n\<close> is what call
  number \<open>n\<close> (counted from 0) resolves or rejects with. The wrapper's outcome records
  what it returns or throws, how many times it called \<open>fn\<close>, and the delays it waited,
  in order.
\<close>

record 'a retry_outcome =
  outcome :: "thrown + 'a"
  calls :: nat
  waits :: "nat list"

function retryWithBackoff_loop ::
  "(nat \<Rightarrow> js_error + 'a) \<Rightarrow> nat \<Rightarrow> nat \<Rightarrow> nat \<Rightarrow> nat \<Rightarrow> nat list \<Rightarrow> 'a retry_outcome" where
  "retryWithBackoff_loop fn retries initialDelay attempt n ws =
     (if attempt < retries then
        (case fn n of
           Inr v \<Rightarrow> \<lparr> outcome = Inr v, calls = n + 1, waits = ws \<rparr>
         | Inl error \<Rightarrow>
             (if js_includes (msg_of error) (js ''MISSING_API_KEY'')
              then \<lparr> outcome = Inl (Rethrown error), calls = n + 1, waits = ws \<rparr>
              else if js_includes (msg_of error) (js ''PERMISSION_DENIED'')
                      \<or> js_includes (msg_of error) (js ''403'')
                      \<or> js_includes (msg_of error) (js ''Permission denied'')
              then \<lparr> outcome = Inl (NewError (js ''PERMISSION_DENIED'')), calls = n + 1, waits = ws \<rparr>
              else if \<not> (js_includes (msg_of error) (js ''429'')
                          \<or> js_includes (msg_of error) (js ''RESOURCE_EXHAUSTED'')
                          \<or> js_includes (msg_of error) (js ''Quota''))
                      \<and> \<not> (js_includes (msg_of error) (js ''503'')
                             \<or> js_includes (msg_of error) (js ''Overloaded''))
              then \<lparr> outcome = Inl (Rethrown error), calls = n + 1, waits = ws \<rparr>
              else if attempt + 1 \<ge> retries
              then \<lparr> outcome = Inl (Rethrown error), calls = n + 1, waits = ws \<rparr>
              else retryWithBackoff_loop fn retries initialDelay (attempt + 1) (n + 1)
                     (ws @ [initialDelay * 2 ^ (attempt + 1 - 1)])))
      else \<lparr> outcome = Inl (NewError (js ''Max retries exceeded'')), calls = n, waits = ws \<rparr>)"
  by pat_completeness auto
termination
  by (relation "measure (\<lambda>(fn, retries, initialDelay, attempt, n, ws). retries - attempt)") auto

definition retryWithBackoff :: "(nat \<Rightarrow> js_error + 'a) \<Rightarrow> nat \<Rightarrow> nat \<Rightarrow> 'a retry_outcome" where
  "retryWithBackoff fn retries initialDelay = retryWithBackoff_loop fn retries initialDelay 0 0 []"

text \<open>The wrapper's classes of failure, in the order it tests them.\<close>

datatype error_class = AuthMissing | PermissionDenied | RateLimited | ServiceUnavailable | Other

definition classify :: "js_error \<Rightarrow> error_class" where
  "classify error =
     (if js_includes (msg_of error) (js ''MISSING_API_KEY'') then AuthMissing
      else if js_includes (msg_of error) (js ''PERMISSION_DENIED'')
              \<or> js_includes (msg_of error) (js ''403'')
              \<or> js_includes (msg_of error) (js ''Permission denied'') then PermissionDenied
      else if js_includes (msg_of error) (js ''429'')
              \<or> js_includes (msg_of error) (js ''RESOURCE_EXHAUSTED'')
              \<or> js_includes (msg_of error) (js ''Quota'') then RateLimited
      else if js_includes (msg_of error) (js ''503'')
              \<or> js_includes (msg_of error) (js ''Overloaded'') then ServiceUnavailable
      else Other)"

text \<open>\<open>fails_retryably fn k\<close>: the first \<open>k\<close> calls of \<open>fn\<close> all fail, each with an error the
  wrapper classifies as rate-limited or service-unavailable.\<close>

definition fails_retryably :: "(nat \<Rightarrow> js_error + 'a) \<Rightarrow> nat \<Rightarrow> bool" where
  "fails_retryably fn k =
     list_all (\<lambda>i. case fn i of Inr v \<Rightarrow> False
                    | Inl e \<Rightarrow> classify e = RateLimited \<or> classify e = ServiceUnavailable) [0..<k]"

text \<open>An error after which the wrapper tries again.\<close>

definition retryable :: "js_error \<Rightarrow> bool" where
  "retryable e \<longleftrightarrow> classify e = RateLimited \<or> classify e = ServiceUnavailable"

section \<open>The request handlers (App.tsx)\<close>

datatype LoadingState = IDLE | LOADING | SUCCESS | ERROR

datatype ViewMode = checker | menu | profile | settings

record QuickRewriteState =
  styles :: "RewriteStyle list"
  selectedStyle :: "RewriteStyle option"
  result :: "js_string option"
  isLoading :: bool

datatype alert_message = permissionDenied | generic

text \<open>
  The component's state, the cell \<open>activeRequestIdRef\<close>, and what the handlers do to the
  outside: the store they write through \<open>storageService\<close>, the \<open>alert\<close> calls and the
  \<open>console.error\<close> calls, in order. The dictionary and touch state, which the handlers
  below neither read nor write, is left out.
\<close>

record App =
  currentTheme :: js_string
  colorScheme :: js_string
  inputText :: js_string
  grammarResult :: "GrammarAnalysis option"
  rewriteResult :: "RewriteAnalysis option"
  quickRewriteState :: QuickRewriteState
  loadingState :: LoadingState
  currentView :: ViewMode
  historyUpdateTrigger :: int
  activeRequestIdRef :: int
  localStorage :: local_storage
  alerts :: "alert_message list"
  console_errors :: "thrown list"

text \<open>\<open>String.prototype.trim\<close> strips white space and line terminators from both ends.\<close>

definition js_whitespace :: "16 word \<Rightarrow> bool" where
  "js_whitespace c \<longleftrightarrow>
     c \<in> {0x0009, 0x000A, 0x000B, 0x000C, 0x000D, 0x0020, 0x00A0, 0x1680,
          0x2028, 0x2029, 0x202F, 0x205F, 0x3000, 0xFEFF}
     \<or> (0x2000 \<le> c \<and> c \<le> 0x200A)"

definition trim :: "js_string \<Rightarrow> js_string" where
  "trim s = rev (dropWhile js_whitespace (rev (dropWhile js_whitespace s)))"

text \<open>
  An \<open>async\<close> handler runs up to its \<open>await\<close> when the user acts, and its continuation
  runs when the remote call settles; other handlers may run in between. Each handler is
  therefore two functions: \<open>_begin\<close>, which takes the reading \<open>now\<close> of \<open>Date.now()\<close> and
  returns the request it issued (its \<open>requestId\<close> and the text its closure captured), and
  \<open>_settled\<close>, which takes that request and the outcome of the call. The continuation of
  a successful grammar check also takes the \<open>uuid\<close> and clock reading \<open>saveHistory\<close>
  draws and the shuffled list of styles.
\<close>

record pending_request =
  requestId :: int
  capturedText :: js_string

definition handleCheckGrammar_begin :: "int \<Rightarrow> App \<Rightarrow> pending_request option \<times> App" where
  "handleCheckGrammar_begin now st =
     (if trim (inputText st) = [] then (None, st)
      else
        (let requestId = now
         in (Some \<lparr> requestId = requestId, capturedText = inputText st \<rparr>,
             st\<lparr> activeRequestIdRef := requestId,
                 loadingState := LOADING,
                 grammarResult := None,
                 rewriteResult := None,
                 quickRewriteState :=
                   \<lparr> styles = [], selectedStyle = None, result = None, isLoading = False \<rparr> \<rparr>)))"

text \<open>\<open>error?.message || error?.toString() || ''\<close> on what \<open>retryWithBackoff\<close> throws.\<close>

fun error_msg :: "thrown \<Rightarrow> js_string" where
  "error_msg (Rethrown e) = (if message e \<noteq> [] then message e else to_string e)"
| "error_msg (NewError m) = (if m \<noteq> [] then m else js ''Error'')"

definition report_error :: "thrown \<Rightarrow> App \<Rightarrow> App" where
  "report_error error st =
     (let st1 = st\<lparr> console_errors := console_errors st @ [error], loadingState := ERROR \<rparr>;
          msg = error_msg error
      in if js_includes msg (js ''PERMISSION_DENIED'')
         then st1\<lparr> alerts := alerts st1 @ [permissionDenied], currentView := settings \<rparr>
         else st1\<lparr> alerts := alerts st1 @ [generic] \<rparr>)"

definition handleCheckGrammar_settled ::
  "pending_request \<Rightarrow> thrown + GrammarAnalysis \<Rightarrow> js_string \<Rightarrow> int \<Rightarrow> RewriteStyle list
     \<Rightarrow> App \<Rightarrow> App" where
  "handleCheckGrammar_settled req settled uuid now shuffled st =
     (case settled of
        Inr res \<Rightarrow>
          (if activeRequestIdRef st \<noteq> requestId req then st
           else
             (let st1 = st\<lparr> grammarResult := Some res,
                             loadingState := SUCCESS,
                             localStorage := saveHistory uuid now (capturedText req) res (localStorage st),
                             historyUpdateTrigger := historyUpdateTrigger st + 1 \<rparr>
              in if activeRequestIdRef st1 \<noteq> requestId req then st1
                 else st1\<lparr> quickRewriteState :=
                            (quickRewriteState st1)\<lparr> styles := take 4 shuffled,
                                                     selectedStyle := None,
                                                     result := None,
                                                     isLoading := False \<rparr> \<rparr>))
      | Inl error \<Rightarrow>
          (if activeRequestIdRef st \<noteq> requestId req then st
           else report_error error st))"

definition handleRewrite_begin :: "int \<Rightarrow> App \<Rightarrow> pending_request option \<times> App" where
  "handleRewrite_begin now st =
     (if trim (inputText st) = [] then (None, st)
      else
        (let requestId = now
         in (Some \<lparr> requestId = requestId, capturedText = inputText st \<rparr>,
             st\<lparr> activeRequestIdRef := requestId,
                 loadingState := LOADING,
                 rewriteResult := None,
                 grammarResult := None,
                 quickRewriteState :=
                   \<lparr> styles = [], selectedStyle = None, result = None, isLoading = False \<rparr> \<rparr>)))"

definition handleRewrite_settled ::
  "pending_request \<Rightarrow> thrown + RewriteAnalysis \<Rightarrow> js_string \<Rightarrow> int \<Rightarrow> App \<Rightarrow> App" where
  "handleRewrite_settled req settled uuid now st =
     (case settled of
        Inr res \<Rightarrow>
          (if activeRequestIdRef st \<noteq> requestId req then st
           else st\<lparr> rewriteResult := Some res,
                    loadingState := SUCCESS,
                    localStorage := saveRewriteHistory uuid now (capturedText req) res (localStorage st),
                    historyUpdateTrigger := historyUpdateTrigger st + 1 \<rparr>)
      | Inl error \<Rightarrow>
          (if activeRequestIdRef st \<noteq> requestId req then st
           else report_error error st))"

definition handleClear :: "App \<Rightarrow> App" where
  "handleClear st =
     st\<lparr> activeRequestIdRef := 0,
         inputText := [],
         grammarResult := None,
         rewriteResult := None,
         quickRewriteState := \<lparr> styles = [], selectedStyle = None, result = None, isLoading = False \<rparr>,
         loadingState := IDLE \<rparr>"

definition handleStop :: "App \<Rightarrow> App" where
  "handleStop st = st\<lparr> activeRequestIdRef := 0, loadingState := IDLE \<rparr>"

text \<open>
  The state once the component has mounted: theme and colour scheme are read from the
  store (\<open>(saved as Theme) || 'light'\<close>, and \<open>'blue'\<close>), everything else starts empty,
  and the two mount effects write theme and colour scheme back under their keys.
  \<open>setInputText\<close> is the editor's change handler. The debounced effect, which saves the
  snapshot a second after the last change, is \<open>saveAppState_effect\<close>.
\<close>

definition initial_App :: "local_storage \<Rightarrow> App" where
  "initial_App ls =
     (let currentTheme = (case grammarguard_theme ls of
                            None \<Rightarrow> js ''light''
                          | Some saved \<Rightarrow> if saved \<noteq> [] then saved else js ''light'');
          colorScheme = (case grammarguard_color_scheme ls of
                           None \<Rightarrow> js ''blue''
                         | Some saved \<Rightarrow> if saved \<noteq> [] then saved else js ''blue'')
      in \<lparr> currentTheme = currentTheme, colorScheme = colorScheme, inputText = [],
           grammarResult = None, rewriteResult = None,
           quickRewriteState = \<lparr> styles = [], selectedStyle = None, result = None, isLoading = False \<rparr>,
           loadingState = IDLE, currentView = checker, historyUpdateTrigger = 0,
           activeRequestIdRef = 0,
           localStorage = ls\<lparr> grammarguard_theme := Some currentTheme,
                              grammarguard_color_scheme := Some colorScheme \<rparr>,
           alerts = [], console_errors = [] \<rparr>)"

definition setInputText :: "js_string \<Rightarrow> App \<Rightarrow> App" where
  "setInputText txt st = st\<lparr> inputText := txt \<rparr>"

definition saveAppState_effect :: "App \<Rightarrow> App" where
  "saveAppState_effect st =
     st\<lparr> localStorage :=
           saveAppState \<lparr> state_inputText = inputText st,
                          state_grammarResult = grammarResult st,
                          state_rewriteResult = rewriteResult st,
                          state_colorScheme = colorScheme st \<rparr>
                        (localStorage st) \<rparr>"

section \<open>The activity calendar (Profile.tsx)\<close>

text \<open>
  \<open>loadData\<close> calls \<open>getStats\<close> and then sets the \<open>history\<close> state to what \<open>getHistory\<close>
  returns. \<open>getStats\<close> throws unless that is an array without \<open>null\<close>, so the \<open>history\<close>
  the calendar is computed from is a list of entries (initially the empty one).
\<close>

definition loadData :: "local_storage \<Rightarrow> js_exception + UserStats \<times> HistoryEntry list" where
  "loadData ls =
     (case getStats ls of
        Inl e \<Rightarrow> Inl e
      | Inr stats \<Rightarrow>
          (case getHistory ls of
             Arr xs \<Rightarrow> Inr (stats, entries_of xs)
           | NonArr \<Rightarrow> Inl TypeError))"

text \<open>
  A local calendar day is modelled by its number, the days since 1 January 1970 in the
  local calendar; the \<open>YYYY-MM-DD\<close> string of a day, which the source uses as map key, is
  a one-to-one rendering of it. \<open>tz\<close> gives the local day of a timestamp, as
  \<open>new Date(timestamp)\<close> with \<open>getFullYear\<close>, \<open>getMonth\<close> and \<open>getDate\<close> does, and
  \<open>getDay\<close> its day of the week (0 is Sunday; day 0 was a Thursday).

  A \<open>Date\<close> object that the calendar moves around is modelled by its local day and its
  local time of day in milliseconds. \<open>gap d\<close> is the length of the stretch of local time
  that does not exist at the start of day \<open>d\<close>: 0 on ordinary days, an hour on a day on
  which the zone's clocks go forward at midnight. Setting a \<open>Date\<close> to a local time
  inside that stretch yields the time that much later (\<open>wall_clock\<close>). \<open>setHours(0,0,0,0)\<close>
  asks for time 0 of the same day; \<open>setDate\<close> keeps the time of day and changes the
  day. \<open>getTime\<close> values are compared as day and time of day are: the times that
  occur are the first ones of their days.
  The tooltip text of a cell, a rendering of its date, is left out.
\<close>

record local_date =
  day_number :: int
  time_of_day :: int

definition wall_clock :: "(int \<Rightarrow> int) \<Rightarrow> int \<Rightarrow> int \<Rightarrow> int" where
  "wall_clock gap d t = (if t < gap d then t + gap d else t)"

definition setHours_0 :: "(int \<Rightarrow> int) \<Rightarrow> local_date \<Rightarrow> local_date" where
  "setHours_0 gap x = x\<lparr> time_of_day := wall_clock gap (day_number x) 0 \<rparr>"

definition setDate_by :: "(int \<Rightarrow> int) \<Rightarrow> int \<Rightarrow> local_date \<Rightarrow> local_date" where
  "setDate_by gap n x =
     \<lparr> day_number = day_number x + n,
       time_of_day = wall_clock gap (day_number x + n) (time_of_day x) \<rparr>"

definition getTime_greater :: "local_date \<Rightarrow> local_date \<Rightarrow> bool" where
  "getTime_greater a b \<longleftrightarrow>
     day_number a > day_number b \<or> (day_number a = day_number b \<and> time_of_day a > time_of_day b)"

record day_cell =
  date :: int
  count :: nat
  isFuture :: bool

definition getDay :: "int \<Rightarrow> int" where
  "getDay d = (d + 4) mod 7"

definition activityMap_of :: "(int \<Rightarrow> int) \<Rightarrow> HistoryEntry list \<Rightarrow> (int \<rightharpoonup> nat)" where
  "activityMap_of tz history =
     foldl (\<lambda>activityMap entry.
              (let dateStr = tz (timestamp entry)
               in activityMap(dateStr \<mapsto> (case activityMap dateStr of None \<Rightarrow> 0 | Some c \<Rightarrow> c) + 1)))
           Map.empty history"

text \<open>The two loops, each counting the iterations it has left; the inner one hands the
  advanced \<open>loopDate\<close> back to the outer one.\<close>

fun weekDays_loop ::
  "(int \<rightharpoonup> nat) \<Rightarrow> (int \<Rightarrow> int) \<Rightarrow> local_date \<Rightarrow> nat \<Rightarrow> local_date \<Rightarrow> day_cell list \<times> local_date" where
  "weekDays_loop activityMap gap today 0 loopDate = ([], loopDate)"
| "weekDays_loop activityMap gap today (Suc n) loopDate =
     (let cell = \<lparr> date = day_number loopDate,
                   count = (case activityMap (day_number loopDate) of None \<Rightarrow> 0 | Some c \<Rightarrow> c),
                   isFuture = getTime_greater loopDate today \<rparr>;
          (weekDays, loopDate') = weekDays_loop activityMap gap today n (setDate_by gap 1 loopDate)
      in (cell # weekDays, loopDate'))"

fun weeks_loop ::
  "(int \<rightharpoonup> nat) \<Rightarrow> (int \<Rightarrow> int) \<Rightarrow> local_date \<Rightarrow> nat \<Rightarrow> local_date \<Rightarrow> day_cell list list" where
  "weeks_loop activityMap gap today 0 loopDate = []"
| "weeks_loop activityMap gap today (Suc n) loopDate =
     (let (weekDays, loopDate') = weekDays_loop activityMap gap today 7 loopDate
      in weekDays # weeks_loop activityMap gap today n loopDate')"

text \<open>\<open>now\<close> is the instant of \<open>new Date()\<close>, any time of the local day \<open>tz now\<close>.\<close>

definition activityWeeks ::
  "(int \<Rightarrow> int) \<Rightarrow> (int \<Rightarrow> int) \<Rightarrow> int \<Rightarrow> HistoryEntry list \<Rightarrow> day_cell list list" where
  "activityWeeks tz gap now history =
     (let activityMap = activityMap_of tz history;
          weeksToShow = 52;
          today = setHours_0 gap \<lparr> day_number = tz now, time_of_day = 0 \<rparr>;
          currentWeekSunday = setDate_by gap (- getDay (day_number today)) today;
          startDate = setDate_by gap (- ((int weeksToShow - 1) * 7)) currentWeekSunday
      in weeks_loop activityMap gap today weeksToShow startDate)"

text \<open>The cell that one iteration of the inner loop pushes, for the closed form of the loops.\<close>

definition cell_of :: "(int \<rightharpoonup> nat) \<Rightarrow> local_date \<Rightarrow> local_date \<Rightarrow> day_cell" where
  "cell_of activityMap today loopDate =
     \<lparr> date = day_number loopDate,
       count = (case activityMap (day_number loopDate) of None \<Rightarrow> 0 | Some c \<Rightarrow> c),
       isFuture = getTime_greater loopDate today \<rparr>"

text \<open>The three dates that \<open>activityWeeks\<close> computes before the loops.\<close>

definition today_of :: "(int \<Rightarrow> int) \<Rightarrow> (int \<Rightarrow> int) \<Rightarrow> int \<Rightarrow> local_date" where
  "today_of tz gap now = setHours_0 gap \<lparr> day_number = tz now, time_of_day = 0 \<rparr>"

definition startDate_of :: "(int \<Rightarrow> int) \<Rightarrow> (int \<Rightarrow> int) \<Rightarrow> int \<Rightarrow> local_date" where
  "startDate_of tz gap now =
     setDate_by gap (- 357)
       (setDate_by gap (- getDay (day_number (today_of tz gap now))) (today_of tz gap now))"

section \<open>Concrete inputs\<close>

text \<open>Inputs at which the theorems below are instantiated.\<close>

definition long_text :: js_string where
  "long_text = replicate 61 0x61"

definition analysis_61 :: GrammarAnalysis where
  "analysis_61 = \<lparr> segments = [], correctedSentence = long_text, correctedWords = None,
                    explanation = \<lparr> overview = [], improvements = [] \<rparr> \<rparr>"

text \<open>The entries that \<open>saveHistory\<close> writes for \<open>analysis_61\<close> and that
  \<open>saveDictionaryHistory\<close> writes for the word \<open>long_text\<close>.\<close>

definition saved_61 :: HistoryEntry where
  "saved_61 = \<lparr> entry_id = js ''id-1'', timestamp = 1700000000000,
                 textSnippet = replicate 60 0x61 @ js ''...'',
                 fullText = Some long_text, errorCount = 0, suggestionCount = 0,
                 isPerfect = True, entry_type = Some grammar, rewriteStyle = None \<rparr>"

definition saved_word_61 :: HistoryEntry where
  "saved_word_61 = \<lparr> entry_id = js ''id-2'', timestamp = 1700000000000,
                 textSnippet = long_text,
                 fullText = Some long_text, errorCount = 0, suggestionCount = 0,
                 isPerfect = True, entry_type = Some dictionary, rewriteStyle = None \<rparr>"

definition entry_a :: HistoryEntry where
  "entry_a = \<lparr> entry_id = js ''a'', timestamp = 1700000000000, textSnippet = js ''I am here.'',
                fullText = Some (js ''I am here.''), errorCount = 1, suggestionCount = 0,
                isPerfect = False, entry_type = Some grammar, rewriteStyle = None \<rparr>"

definition snapshot_a :: AppState where
  "snapshot_a = \<lparr> state_inputText = js ''I is here.'', state_grammarResult = None,
                   state_rewriteResult = None, state_colorScheme = js ''blue'' \<rparr>"

definition stale_store :: local_storage where
  "stale_store = \<lparr> grammarguard_history = Some (Doc (Arr [Entry entry_a])),
                    grammarguard_app_state = Some (Doc snapshot_a),
                    grammarguard_api_key = Some (js ''secret''),
                    grammarguard_version = Some (js ''1.0.2''),
                    grammarguard_theme = Some (js ''dark''),
                    grammarguard_color_scheme = Some (js ''blue'') \<rparr>"

text \<open>A store whose history text is \<open>null\<close>.\<close>

definition null_store :: local_storage where
  "null_store = empty_storage\<lparr>grammarguard_history := Some (Doc NonArr)\<rparr>"

definition entry_future :: HistoryEntry where
  "entry_future = \<lparr> entry_id = js ''f'', timestamp = 1800000000000, textSnippet = js ''later'',
                fullText = Some (js ''later''), errorCount = 0, suggestionCount = 0,
                isPerfect = True, entry_type = Some grammar, rewriteStyle = None \<rparr>"

text \<open>
  A store reached from the empty one: a backup holding an entry stamped later than the
  local clock is imported, then a dictionary lookup is saved, which writes \<open>entry_b\<close>.
\<close>

definition skewed_store :: local_storage where
  "skewed_store =
     saveDictionaryHistory (js ''b'') 1700000000000 (js ''word'')
       (snd (importHistoryJSON (Parsed (JArray [Entry entry_future])) empty_storage))"

definition entry_b :: HistoryEntry where
  "entry_b = \<lparr> entry_id = js ''b'', timestamp = 1700000000000, textSnippet = js ''word'',
                fullText = Some (js ''word''), errorCount = 0, suggestionCount = 0,
                isPerfect = True, entry_type = Some dictionary, rewriteStyle = None \<rparr>"

definition skewed_export :: file_content where
  "skewed_export =
     Parsed (JObject (IsArray [Entry entry_b, Entry entry_future]) None None (Some CURRENT_VERSION))"

definition stale_export :: file_content where
  "stale_export =
     Parsed (JObject (IsArray [Entry entry_a]) (Some (js ''dark'')) (Some (js ''blue''))
               (Some CURRENT_VERSION))"

text \<open>An operation that is rate-limited twice and then succeeds, and one that is always
  overloaded.\<close>

definition rate_limit_error :: js_error where
  "rate_limit_error = \<lparr> message = js ''429 Too Many Requests'', error_json = None,
                         object_json = Some (js ''{}''), to_string = js ''Error: 429 Too Many Requests'' \<rparr>"

definition overloaded_error :: js_error where
  "overloaded_error = \<lparr> message = js ''The model is Overloaded'', error_json = None,
                         object_json = Some (js ''{}''), to_string = js ''Error: The model is Overloaded'' \<rparr>"

definition flaky :: "nat \<Rightarrow> js_error + nat" where
  "flaky n = (if n < 2 then Inl rate_limit_error else Inr 7)"

definition down :: "nat \<Rightarrow> js_error + nat" where
  "down n = Inl overloaded_error"

text \<open>
  Requests and results for the handlers: the component mounted on the empty store, with
  a text typed in; a clock reading \<open>T0\<close>; the request a handler issues at that reading;
  two grammar results and a rewrite result, and the history entries written for them.
\<close>

definition T0 :: int where
  "T0 = 1700000000000"

definition app0 :: App where
  "app0 = setInputText (js ''I is here.'') (initial_App empty_storage)"

definition request_T0 :: pending_request where
  "request_T0 = \<lparr> requestId = T0, capturedText = js ''I is here.'' \<rparr>"

definition analysis_1 :: GrammarAnalysis where
  "analysis_1 = \<lparr> segments = [], correctedSentence = js ''I am here.'', correctedWords = None,
                   explanation = \<lparr> overview = [], improvements = [] \<rparr> \<rparr>"

definition analysis_2 :: GrammarAnalysis where
  "analysis_2 = \<lparr> segments = [], correctedSentence = js ''I am here!'', correctedWords = None,
                   explanation = \<lparr> overview = [], improvements = [] \<rparr> \<rparr>"

definition rewrite_1 :: RewriteAnalysis where
  "rewrite_1 = \<lparr> originalText = js ''I is here.'', rewrittenText = js ''Here I am.'',
                  rewrittenWords = None, style = Formal,
                  rewrite_explanation = \<lparr> overview = [], improvements = [] \<rparr> \<rparr>"

definition saved_check_1 :: HistoryEntry where
  "saved_check_1 = \<lparr> entry_id = js ''id-1'', timestamp = T0 + 900, textSnippet = js ''I am here.'',
                fullText = Some (js ''I am here.''), errorCount = 0, suggestionCount = 0,
                isPerfect = True, entry_type = Some grammar, rewriteStyle = None \<rparr>"

definition saved_check_2 :: HistoryEntry where
  "saved_check_2 = \<lparr> entry_id = js ''id-2'', timestamp = T0 + 1200, textSnippet = js ''I am here!'',
                fullText = Some (js ''I am here!''), errorCount = 0, suggestionCount = 0,
                isPerfect = True, entry_type = Some grammar, rewriteStyle = None \<rparr>"

definition saved_rewrite_2 :: HistoryEntry where
  "saved_rewrite_2 = \<lparr> entry_id = js ''id-2'', timestamp = T0 + 1200, textSnippet = js ''Here I am.'',
                fullText = Some (js ''Here I am.''), errorCount = 0, suggestionCount = 0,
                isPerfect = True, entry_type = Some rewrite, rewriteStyle = Some (js ''Formal'') \<rparr>"

text \<open>Two grammar checks begun at the same clock reading; then the first one settles,
  then the second.\<close>

definition after_two_checks :: App where
  "after_two_checks = snd (handleCheckGrammar_begin T0 (snd (handleCheckGrammar_begin T0 app0)))"

definition first_check_settled :: App where
  "first_check_settled =
     handleCheckGrammar_settled request_T0 (Inr analysis_1) (js ''id-1'') (T0 + 900) [] after_two_checks"

definition second_check_settled :: App where
  "second_check_settled =
     handleCheckGrammar_settled request_T0 (Inr analysis_2) (js ''id-2'') (T0 + 1200) [] first_check_settled"

text \<open>A grammar check and then a rewrite begun at the same clock reading; then the check
  settles, then the rewrite.\<close>

definition after_check_and_rewrite :: App where
  "after_check_and_rewrite = snd (handleRewrite_begin T0 (snd (handleCheckGrammar_begin T0 app0)))"

definition check_settled_during_rewrite :: App where
  "check_settled_during_rewrite =
     handleCheckGrammar_settled request_T0 (Inr analysis_1) (js ''id-1'') (T0 + 900) []
       after_check_and_rewrite"

definition rewrite_settled_after_check :: App where
  "rewrite_settled_after_check =
     handleRewrite_settled request_T0 (Inr rewrite_1) (js ''id-2'') (T0 + 1200)
       check_settled_during_rewrite"

text \<open>
  The local day in the UTC time zone, and a zone whose clocks never skip midnight. A
  store holding an entry stamped on the day of \<open>T0\<close> and, imported from a backup, one
  stamped two days later. A store holding two grammar checks, saved 360 days apart, the
  later one on Saturday 18 November 2023 (day 19679).
\<close>

definition utc_day :: "int \<Rightarrow> int" where
  "utc_day ts = ts div 86400000"

definition no_gap :: "int \<Rightarrow> int" where
  "no_gap d = 0"

definition entry_ahead :: HistoryEntry where
  "entry_ahead = \<lparr> entry_id = js ''g'', timestamp = 1700100000000, textSnippet = js ''ahead'',
                fullText = Some (js ''ahead''), errorCount = 0, suggestionCount = 0,
                isPerfect = True, entry_type = Some grammar, rewriteStyle = None \<rparr>"

definition ahead_store :: local_storage where
  "ahead_store = snd (importHistoryJSON (Parsed (JArray [Entry entry_ahead])) stale_store)"

definition check_last_year :: HistoryEntry where
  "check_last_year = \<lparr> entry_id = js ''id-1'', timestamp = 1669161600000,
                textSnippet = js ''I am here.'', fullText = Some (js ''I am here.''),
                errorCount = 0, suggestionCount = 0,
                isPerfect = True, entry_type = Some grammar, rewriteStyle = None \<rparr>"

definition check_saturday :: HistoryEntry where
  "check_saturday = \<lparr> entry_id = js ''id-2'', timestamp = 1700265600000,
                textSnippet = js ''I am here.'', fullText = Some (js ''I am here.''),
                errorCount = 0, suggestionCount = 0,
                isPerfect = True, entry_type = Some grammar, rewriteStyle = None \<rparr>"

definition year_store :: local_storage where
  "year_store =
     saveHistory (js ''id-2'') 1700265600000 (js ''I is here.'') analysis_1
       (saveHistory (js ''id-1'') 1669161600000 (js ''I is here.'') analysis_1 empty_storage)"

text \<open>A store whose history is \<open>t\<close> grammar checks, the first \<open>p\<close> of them perfect and the
  others with two errors each. An entry without a type, as a backup written before the
  types were introduced holds them, and the store that importing such a backup into the
  empty store gives.\<close>

definition numbered_entry :: "nat \<Rightarrow> bool \<Rightarrow> HistoryEntry" where
  "numbered_entry i perfect =
     \<lparr> entry_id = replicate (Suc i) 0x61, timestamp = 1700000000000 - int i,
       textSnippet = js ''text'', fullText = Some (js ''text''),
       errorCount = (if perfect then 0 else 2), suggestionCount = 0,
       isPerfect = perfect, entry_type = Some grammar, rewriteStyle = None \<rparr>"

definition checks_store :: "nat \<Rightarrow> nat \<Rightarrow> local_storage" where
  "checks_store p t =
     empty_storage\<lparr>grammarguard_history :=
       Some (Doc (Arr (map Entry (map (\<lambda>i. numbered_entry i (i < p)) [0..<t]))))\<rparr>"

definition entry_legacy :: HistoryEntry where
  "entry_legacy = \<lparr> entry_id = js ''old'', timestamp = 1600000000000, textSnippet = js ''I am here.'',
                fullText = None, errorCount = 0, suggestionCount = 0,
                isPerfect = True, entry_type = None, rewriteStyle = None \<rparr>"

definition legacy_store :: local_storage where
  "legacy_store = snd (importHistoryJSON (Parsed (JArray [Entry entry_legacy])) empty_storage)"

section \<open>Properties\<close>

lemma key_name_inj: "inj key_name"
proof (rule injI)
  fix a b assume "key_name a = key_name b"
  then show "a = b" by (cases a; cases b) simp_all
qed

lemma getHistory_set [simp]: "getHistory (ls\<lparr>grammarguard_history := Some (Doc v)\<rparr>) = v"
  by (simp add: getHistory_def)

lemma getHistory_empty [simp]: "getHistory empty_storage = Arr []"
  by (simp add: getHistory_def empty_storage_def)

lemma js_length [simp]: "length (js s) = length s"
  by (simp add: js_def)

lemma entries_of_map_Entry [simp]: "entries_of (map Entry es) = es"
  by (induction es) simp_all

lemma Null_notin_map_Entry [simp]: "Null \<notin> set (map Entry es)"
  by auto

text \<open>An array without \<open>null\<close> is an array of entries.\<close>

lemma no_Null_entries: "Null \<notin> set xs \<Longrightarrow> xs = map Entry (entries_of xs)"
proof (induction xs)
  case Nil
  show ?case by simp
next
  case (Cons x xs)
  then show ?case by (cases x) simp_all
qed

subsection \<open>Snippets of created entries\<close>

text \<open>
  C9, as amended. When the stored history is an array, each of the three writers puts
  one new entry in front of it. The snippet of a grammar or rewrite entry is the stored
  content itself when that has at most 60 code units, and otherwise its first 60 code
  units followed by three dots: at most 63 code units, not 60. The snippet of a
  dictionary entry is the looked-up word as it is, whatever its length. When the stored
  history is not an array, no writer creates an entry: the store stays as it is.
\<close>

theorem textSnippet_of_saved_entry:
  "(getHistory ls = Arr xs \<longrightarrow>
      (\<exists>e. getHistory (saveHistory uuid now txt ga ls) = Arr (Entry e # xs)
           \<and> textSnippet e =
               (let content = (if correctedSentence ga \<noteq> [] then correctedSentence ga else txt)
                in if 60 < length content then take 60 content @ js ''...'' else content)
           \<and> length (textSnippet e) \<le> 63)
      \<and> (\<exists>e. getHistory (saveRewriteHistory uuid now txt ra ls) = Arr (Entry e # xs)
           \<and> textSnippet e =
               (let content = rewrittenText ra
                in if 60 < length content then take 60 content @ js ''...'' else content)
           \<and> length (textSnippet e) \<le> 63)
      \<and> (\<exists>e. getHistory (saveDictionaryHistory uuid now word ls) = Arr (Entry e # xs)
           \<and> textSnippet e = word))
   \<and> (getHistory ls = NonArr \<longrightarrow>
        saveHistory uuid now txt ga ls = ls
        \<and> saveRewriteHistory uuid now txt ra ls = ls
        \<and> saveDictionaryHistory uuid now word ls = ls)"
  by (simp add: saveHistory_def saveRewriteHistory_def saveDictionaryHistory_def Let_def)

text \<open>At a corrected sentence of 61 code units the snippet has 63; on the store whose
  history text is \<open>null\<close> nothing is written.\<close>

theorem textSnippet_of_saved_entry_witness:
  "(\<exists>e. getHistory (saveHistory (js ''id-1'') 1700000000000 (js ''x'') analysis_61 empty_storage)
          = Arr [Entry e]
        \<and> length (textSnippet e) = 63)
   \<and> saveHistory (js ''id-1'') 1700000000000 (js ''x'') analysis_61 null_store = null_store"
proof -
  have a: "getHistory empty_storage = Arr []" by simp
  have n: "getHistory null_store = NonArr" by (simp add: null_store_def)
  from textSnippet_of_saved_entry
         [of empty_storage "[]" "js ''id-1''" 1700000000000 "js ''x''" analysis_61] a
  obtain e where "getHistory (saveHistory (js ''id-1'') 1700000000000 (js ''x'') analysis_61 empty_storage)
                    = Arr [Entry e]"
    and "textSnippet e =
               (let content = (if correctedSentence analysis_61 \<noteq> [] then correctedSentence analysis_61
                               else js ''x'')
                in if 60 < length content then take 60 content @ js ''...'' else content)"
    by blast
  then have "getHistory (saveHistory (js ''id-1'') 1700000000000 (js ''x'') analysis_61 empty_storage)
                    = Arr [Entry e] \<and> length (textSnippet e) = 63"
    by (simp add: analysis_61_def long_text_def Let_def)
  moreover have "saveHistory (js ''id-1'') 1700000000000 (js ''x'') analysis_61 null_store = null_store"
    using textSnippet_of_saved_entry
            [of null_store "[]" "js ''id-1''" 1700000000000 "js ''x''" analysis_61] n
    by blast
  ultimately show ?thesis by blast
qed

text \<open>
  C9 as stated fails: a grammar entry for a corrected sentence of 61 code units and a
  dictionary entry for a word of 61 code units both get a snippet longer than 60.
\<close>

theorem textSnippet_longer_than_60:
  "getHistory (saveHistory (js ''id-1'') 1700000000000 (js ''x'') analysis_61 empty_storage)
     = Arr [Entry saved_61]
   \<and> \<not> length (textSnippet saved_61) \<le> 60
   \<and> getHistory (saveDictionaryHistory (js ''id-2'') 1700000000000 long_text empty_storage)
     = Arr [Entry saved_word_61]
   \<and> \<not> length (textSnippet saved_word_61) \<le> 60"
  by (simp add: saveHistory_def saveDictionaryHistory_def Let_def analysis_61_def long_text_def
        saved_61_def saved_word_61_def)

subsection \<open>Schema version mismatch\<close>

text \<open>
  C5. When the stored version tag is not the expected one, \<open>getAppState\<close> returns null,
  and the store afterwards is the store before with the app snapshot removed and the
  version tag set to the expected one: the history record, the credential, the theme and
  the colour scheme are what they were.
\<close>

theorem getAppState_version_mismatch:
  assumes "grammarguard_version ls \<noteq> Some CURRENT_VERSION"
  shows "fst (getAppState ls) = None
    \<and> snd (getAppState ls) =
        ls\<lparr>grammarguard_app_state := None, grammarguard_version := Some CURRENT_VERSION\<rparr>
    \<and> grammarguard_history (snd (getAppState ls)) = grammarguard_history ls
    \<and> grammarguard_api_key (snd (getAppState ls)) = grammarguard_api_key ls
    \<and> grammarguard_theme (snd (getAppState ls)) = grammarguard_theme ls
    \<and> grammarguard_color_scheme (snd (getAppState ls)) = grammarguard_color_scheme ls"
  using assms by (simp add: getAppState_def)

theorem getAppState_version_mismatch_witness:
  "grammarguard_version stale_store \<noteq> Some CURRENT_VERSION
   \<and> fst (getAppState stale_store) = None
   \<and> grammarguard_app_state (snd (getAppState stale_store)) = None
   \<and> grammarguard_version (snd (getAppState stale_store)) = Some (js ''1.0.3'')
   \<and> grammarguard_history (snd (getAppState stale_store)) = Some (Doc (Arr [Entry entry_a]))
   \<and> grammarguard_api_key (snd (getAppState stale_store)) = Some (js ''secret'')"
proof -
  have h: "grammarguard_version stale_store \<noteq> Some CURRENT_VERSION"
    by (simp add: stale_store_def CURRENT_VERSION_def js_def)
  show ?thesis
    using h getAppState_version_mismatch [OF h]
    by (simp add: stale_store_def CURRENT_VERSION_def)
qed

subsection \<open>Malformed imports\<close>

text \<open>
  C6. When the file does not parse, or parses to something that is neither an array nor
  an object whose \<open>history\<close> is an array, \<open>importHistoryJSON\<close> resolves with
  \<open>success = false\<close> and the store is left exactly as it was.
\<close>

theorem import_rejects_malformed:
  assumes "content = Unparseable
     \<or> (\<exists>p. content = Parsed p \<and> (\<forall>h. p \<noteq> JArray h)
             \<and> (\<forall>h th col ver. p \<noteq> JObject (IsArray h) th col ver))"
  shows "success (fst (importHistoryJSON content ls)) = False
    \<and> snd (importHistoryJSON content ls) = ls"
proof (cases content)
  case Unparseable
  then show ?thesis by (simp add: import_failed_def)
next
  case (Parsed p)
  with assms have a: "\<forall>h. p \<noteq> JArray h"
    and b: "\<forall>h th col ver. p \<noteq> JObject (IsArray h) th col ver"
    by auto
  show ?thesis
  proof (cases p)
    case (JArray h)
    with a show ?thesis by simp
  next
    case (JObject hf th col ver)
    with b Parsed show ?thesis by (cases hf) (simp_all add: import_failed_def)
  qed (simp_all add: Parsed import_failed_def)
qed

theorem import_rejects_malformed_witness:
  "success (fst (importHistoryJSON (Parsed (JObject NotArray None None None)) stale_store)) = False
   \<and> snd (importHistoryJSON (Parsed (JObject NotArray None None None)) stale_store) = stale_store
   \<and> success (fst (importHistoryJSON Unparseable stale_store)) = False
   \<and> snd (importHistoryJSON Unparseable stale_store) = stale_store"
proof -
  have h1: "Parsed (JObject NotArray None None None) = Unparseable
     \<or> (\<exists>p. Parsed (JObject NotArray None None None) = Parsed p \<and> (\<forall>h. p \<noteq> JArray h)
             \<and> (\<forall>h th col ver. p \<noteq> JObject (IsArray h) th col ver))"
    by simp
  have h2: "Unparseable = Unparseable
     \<or> (\<exists>p. Unparseable = Parsed p \<and> (\<forall>h. p \<noteq> JArray h)
             \<and> (\<forall>h th col ver. p \<noteq> JObject (IsArray h) th col ver))"
    by simp
  show ?thesis
    using import_rejects_malformed [OF h1, of stale_store]
          import_rejects_malformed [OF h2, of stale_store]
    by simp
qed

subsection \<open>Import merge\<close>

lemma sorted_neg_timestamp:
  "sorted (map (\<lambda>e. - timestamp e) xs) \<longleftrightarrow> sorted_wrt (\<lambda>a b. timestamp b \<le> timestamp a) xs"
  by (simp add: sorted_map)

text \<open>The merge on a stored array and an incoming array of entries.\<close>

lemma Null_notin_image [simp]: "Null \<notin> Entry ` A"
  by auto

lemma merge_import_entries:
  "getHistory ls = Arr (map Entry cur) \<Longrightarrow>
     merge_import (map Entry inc) th col ls =
       (\<lparr> success = True, theme = th, colorScheme_imported = col \<rparr>,
        ls\<lparr>grammarguard_history := Some (Doc (Arr (map Entry
              (sort_key (\<lambda>e. - timestamp e)
                 (filter (\<lambda>x. entry_id x \<noteq> [] \<and> entry_id x \<notin> entry_id ` set cur) inc @ cur)))))\<rparr>)"
  by (simp add: merge_import_def Let_def)

text \<open>The merge where the \<open>catch\<close> is reached.\<close>

lemma merge_import_fails:
  "getHistory ls = NonArr \<or> (\<exists>xs. getHistory ls = Arr xs \<and> Null \<in> set xs) \<or> Null \<in> set h \<Longrightarrow>
     merge_import h th col ls = (import_failed, ls)"
  by (auto simp: merge_import_def Let_def split: history_json.splits)

lemma merge_import_cases:
  "merge_import h th col ls = (import_failed, ls)
   \<or> (\<exists>cur inc. getHistory ls = Arr (map Entry cur) \<and> h = map Entry inc)"
proof (cases "getHistory ls")
  case NonArr
  then show ?thesis by (simp add: merge_import_fails)
next
  case (Arr xs)
  show ?thesis
  proof (cases "Null \<in> set xs \<or> Null \<in> set h")
    case True
    with Arr show ?thesis using merge_import_fails [of ls h th col] by blast
  next
    case False
    then have "xs = map Entry (entries_of xs)" "h = map Entry (entries_of h)"
      using no_Null_entries by blast+
    with Arr show ?thesis by metis
  qed
qed

text \<open>After a merge every incoming entry with an id is known, and the history is sorted:
  merging the same entries again accepts none and the sort moves nothing. After a failed
  merge the store is the same, and the merge fails again.\<close>

lemma merge_import_twice:
  "merge_import h th col (snd (merge_import h th col ls)) = merge_import h th col ls"
proof -
  consider (failed) "merge_import h th col ls = (import_failed, ls)"
    | (merged) cur inc where "getHistory ls = Arr (map Entry cur)" "h = map Entry inc"
    using merge_import_cases by blast
  then show ?thesis
  proof cases
    case failed
    then show ?thesis by simp
  next
    case merged
    let ?f = "\<lambda>e. - timestamp e"
    let ?new = "filter (\<lambda>x. entry_id x \<noteq> [] \<and> entry_id x \<notin> entry_id ` set cur) inc"
    let ?merged = "sort_key ?f (?new @ cur)"
    let ?ls = "ls\<lparr>grammarguard_history := Some (Doc (Arr (map Entry ?merged)))\<rparr>"
    have first: "merge_import h th col ls =
                   (\<lparr> success = True, theme = th, colorScheme_imported = col \<rparr>, ?ls)"
      using merged by (simp add: merge_import_entries)
    have again: "filter (\<lambda>x. entry_id x \<noteq> [] \<and> entry_id x \<notin> entry_id ` set ?merged) inc = []"
      by (auto simp: filter_empty_conv)
    have stays: "sort_key ?f ?merged = ?merged"
      by (rule sort_key_id_if_sorted) (rule sorted_sort_key)
    have "getHistory ?ls = Arr (map Entry ?merged)" by simp
    then have "merge_import (map Entry inc) th col ?ls =
                 (\<lparr> success = True, theme = th, colorScheme_imported = col \<rparr>,
                  ?ls\<lparr>grammarguard_history := Some (Doc (Arr (map Entry
                     (sort_key ?f (filter (\<lambda>x. entry_id x \<noteq> [] \<and> entry_id x \<notin> entry_id ` set ?merged) inc
                                   @ ?merged)))))\<rparr>)"
      by (rule merge_import_entries)
    then have "merge_import h th col ?ls =
                 (\<lparr> success = True, theme = th, colorScheme_imported = col \<rparr>, ?ls)"
      using again stays merged(2) by simp
    with first show ?thesis by simp
  qed
qed

lemma importHistoryJSON_twice:
  "importHistoryJSON c (snd (importHistoryJSON c ls)) = importHistoryJSON c ls"
proof (cases c)
  case Unparseable
  then show ?thesis by simp
next
  case (Parsed p)
  show ?thesis
  proof (cases p)
    case (JObject hf th' col' ver')
    with Parsed show ?thesis by (cases hf) (simp_all add: merge_import_twice)
  qed (simp_all add: Parsed merge_import_twice)
qed

text \<open>What an export parses to: the stored value under \<open>history\<close>.\<close>

lemma export_history:
  "exportHistoryJSON ls = Inr c \<Longrightarrow>
     \<exists>th col ver. c = Parsed (JObject (case getHistory ls of Arr xs \<Rightarrow> IsArray xs | NonArr \<Rightarrow> NotArray)
                                 th col ver)"
  by (auto simp: exportHistoryJSON_def getHistory_def Let_def
           split: option.splits item.splits if_splits history_json.splits)

lemma filter_known_ids:
  "filter (\<lambda>x. entry_id x \<noteq> [] \<and> entry_id x \<notin> entry_id ` set xs) xs = []"
  by (auto simp: filter_empty_conv)

lemma sort_key_fixed:
  "sort_key (\<lambda>e. - timestamp e) xs = xs \<longleftrightarrow> sorted_wrt (\<lambda>a b. timestamp b \<le> timestamp a) xs"
proof
  assume "sort_key (\<lambda>e. - timestamp e) xs = xs"
  then have "sorted (map (\<lambda>e. - timestamp e) xs)"
    using sorted_sort_key [of "\<lambda>e. - timestamp e" xs] by simp
  then show "sorted_wrt (\<lambda>a b. timestamp b \<le> timestamp a) xs"
    by (simp add: sorted_neg_timestamp)
next
  assume "sorted_wrt (\<lambda>a b. timestamp b \<le> timestamp a) xs"
  then show "sort_key (\<lambda>e. - timestamp e) xs = xs"
    by (simp add: sort_key_id_if_sorted flip: sorted_neg_timestamp)
qed

text \<open>
  C3, as amended. Importing the same file a second time changes neither the store nor
  the result, whatever the file and the store. For a file of either accepted shape
  holding an array of entries, and a stored history that is an array of entries, the
  import succeeds and the new history is the incoming entries that have an id not
  present in the current history, put before the current history, and the whole sorted
  by timestamp, newest first, entries of equal timestamp keeping their order. When the
  stored history is not an array, or it or the incoming array holds a \<open>null\<close>, the
  import of such a file fails and the store is unchanged. Importing the store's own
  export accepts nothing and leaves the same entries, in that sorted order: the history
  is the one before the import exactly when it was already in descending order of
  timestamp; when the stored history is not an array or holds a \<open>null\<close>, the import of
  the export fails and the store is unchanged.
\<close>

theorem import_merge:
  "importHistoryJSON c (snd (importHistoryJSON c ls)) = importHistoryJSON c ls
   \<and> ((c = Parsed (JArray (map Entry inc)) \<or> c = Parsed (JObject (IsArray (map Entry inc)) th col ver))
       \<and> getHistory ls = Arr (map Entry cur) \<longrightarrow>
        success (fst (importHistoryJSON c ls))
        \<and> getHistory (snd (importHistoryJSON c ls)) =
            Arr (map Entry (sort_key (\<lambda>e. - timestamp e)
              (filter (\<lambda>x. entry_id x \<noteq> [] \<and> entry_id x \<notin> entry_id ` set cur) inc @ cur)))
        \<and> sorted_wrt (\<lambda>a b. timestamp b \<le> timestamp a)
            (sort_key (\<lambda>e. - timestamp e)
              (filter (\<lambda>x. entry_id x \<noteq> [] \<and> entry_id x \<notin> entry_id ` set cur) inc @ cur)))
   \<and> ((c = Parsed (JArray h) \<or> c = Parsed (JObject (IsArray h) th col ver))
       \<and> (getHistory ls = NonArr \<or> (\<exists>xs. getHistory ls = Arr xs \<and> Null \<in> set xs) \<or> Null \<in> set h) \<longrightarrow>
        \<not> success (fst (importHistoryJSON c ls)) \<and> snd (importHistoryJSON c ls) = ls)
   \<and> (exportHistoryJSON ls = Inr c \<and> getHistory ls = Arr (map Entry cur) \<longrightarrow>
        success (fst (importHistoryJSON c ls))
        \<and> getHistory (snd (importHistoryJSON c ls)) = Arr (map Entry (sort_key (\<lambda>e. - timestamp e) cur))
        \<and> set (sort_key (\<lambda>e. - timestamp e) cur) = set cur
        \<and> length (sort_key (\<lambda>e. - timestamp e) cur) = length cur
        \<and> (getHistory (snd (importHistoryJSON c ls)) = getHistory ls
             \<longleftrightarrow> sorted_wrt (\<lambda>a b. timestamp b \<le> timestamp a) cur))
   \<and> (exportHistoryJSON ls = Inr c
       \<and> (getHistory ls = NonArr \<or> (\<exists>xs. getHistory ls = Arr xs \<and> Null \<in> set xs)) \<longrightarrow>
        \<not> success (fst (importHistoryJSON c ls)) \<and> snd (importHistoryJSON c ls) = ls)"
proof (intro conjI impI)
  show "importHistoryJSON c (snd (importHistoryJSON c ls)) = importHistoryJSON c ls"
    by (rule importHistoryJSON_twice)
next
  let ?m = "sort_key (\<lambda>e. - timestamp e)
              (filter (\<lambda>x. entry_id x \<noteq> [] \<and> entry_id x \<notin> entry_id ` set cur) inc @ cur)"
  assume v: "(c = Parsed (JArray (map Entry inc)) \<or> c = Parsed (JObject (IsArray (map Entry inc)) th col ver))
             \<and> getHistory ls = Arr (map Entry cur)"
  then have "\<exists>th' col'. importHistoryJSON c ls =
               (\<lparr> success = True, theme = th', colorScheme_imported = col' \<rparr>,
                ls\<lparr>grammarguard_history := Some (Doc (Arr (map Entry ?m)))\<rparr>)"
    by (auto simp: merge_import_entries)
  then obtain th' col' where i: "importHistoryJSON c ls =
               (\<lparr> success = True, theme = th', colorScheme_imported = col' \<rparr>,
                ls\<lparr>grammarguard_history := Some (Doc (Arr (map Entry ?m)))\<rparr>)"
    by blast
  from i show "success (fst (importHistoryJSON c ls))" by simp
  from i show "getHistory (snd (importHistoryJSON c ls)) = Arr (map Entry ?m)" by simp
  show "sorted_wrt (\<lambda>a b. timestamp b \<le> timestamp a) ?m"
    by (simp flip: sorted_neg_timestamp)
next
  assume f: "(c = Parsed (JArray h) \<or> c = Parsed (JObject (IsArray h) th col ver))
       \<and> (getHistory ls = NonArr \<or> (\<exists>xs. getHistory ls = Arr xs \<and> Null \<in> set xs) \<or> Null \<in> set h)"
  then have "importHistoryJSON c ls = (import_failed, ls)"
    using merge_import_fails [of ls h] by auto
  then show "\<not> success (fst (importHistoryJSON c ls))" "snd (importHistoryJSON c ls) = ls"
    by (simp_all add: import_failed_def)
next
  assume e: "exportHistoryJSON ls = Inr c \<and> getHistory ls = Arr (map Entry cur)"
  then obtain th' col' ver' where c: "c = Parsed (JObject (IsArray (map Entry cur)) th' col' ver')"
    using export_history [of ls c] by auto
  have i: "importHistoryJSON c ls =
               (\<lparr> success = True, theme = th', colorScheme_imported = col' \<rparr>,
                ls\<lparr>grammarguard_history := Some (Doc (Arr (map Entry
                     (sort_key (\<lambda>e. - timestamp e) cur))))\<rparr>)"
    using e c by (simp add: merge_import_entries filter_known_ids)
  from i show "success (fst (importHistoryJSON c ls))" by simp
  from i show s: "getHistory (snd (importHistoryJSON c ls)) =
                    Arr (map Entry (sort_key (\<lambda>e. - timestamp e) cur))"
    by simp
  show "set (sort_key (\<lambda>e. - timestamp e) cur) = set cur" by simp
  show "length (sort_key (\<lambda>e. - timestamp e) cur) = length cur" by simp
  have "map Entry (sort_key (\<lambda>e. - timestamp e) cur) = map Entry cur
          \<longleftrightarrow> sort_key (\<lambda>e. - timestamp e) cur = cur"
    by (simp add: inj_map_eq_map inj_on_def)
  then show "getHistory (snd (importHistoryJSON c ls)) = getHistory ls
               \<longleftrightarrow> sorted_wrt (\<lambda>a b. timestamp b \<le> timestamp a) cur"
    using s e by (simp add: sort_key_fixed)
next
  assume e: "exportHistoryJSON ls = Inr c
       \<and> (getHistory ls = NonArr \<or> (\<exists>xs. getHistory ls = Arr xs \<and> Null \<in> set xs))"
  then obtain hf th' col' ver' where c: "c = Parsed (JObject hf th' col' ver')"
      and hf: "hf = (case getHistory ls of Arr xs \<Rightarrow> IsArray xs | NonArr \<Rightarrow> NotArray)"
    using export_history [of ls c] by auto
  have "importHistoryJSON c ls = (import_failed, ls)"
  proof (cases "getHistory ls")
    case NonArr
    with c hf show ?thesis by simp
  next
    case (Arr xs)
    with e have "Null \<in> set xs" by auto
    with Arr c hf show ?thesis using merge_import_fails [of ls xs th' col'] by auto
  qed
  then show "\<not> success (fst (importHistoryJSON c ls))" "snd (importHistoryJSON c ls) = ls"
    by (simp_all add: import_failed_def)
qed

text \<open>
  A backup with one new, later entry merged into a store holding one entry, twice; that
  store's own export imported into it; and the same backup offered to the store whose
  history text is \<open>null\<close>.
\<close>

theorem import_merge_witness:
  "getHistory (snd (importHistoryJSON (Parsed (JArray [Entry entry_future])) stale_store))
     = Arr [Entry entry_future, Entry entry_a]
   \<and> importHistoryJSON (Parsed (JArray [Entry entry_future]))
        (snd (importHistoryJSON (Parsed (JArray [Entry entry_future])) stale_store))
     = importHistoryJSON (Parsed (JArray [Entry entry_future])) stale_store
   \<and> exportHistoryJSON stale_store = Inr stale_export
   \<and> getHistory (snd (importHistoryJSON stale_export stale_store)) = getHistory stale_store
   \<and> importHistoryJSON (Parsed (JArray [Entry entry_future])) null_store = (import_failed, null_store)
   \<and> exportHistoryJSON null_store = Inr (Parsed (JObject NotArray None None (Some CURRENT_VERSION)))
   \<and> snd (importHistoryJSON (Parsed (JObject NotArray None None (Some CURRENT_VERSION))) null_store)
       = null_store"
proof -
  let ?c = "Parsed (JArray [Entry entry_future])"
  let ?n = "Parsed (JObject NotArray None None (Some CURRENT_VERSION))"
  let ?f = "\<lambda>e. - timestamp e"
  have e: "exportHistoryJSON stale_store = Inr stale_export"
    by (simp add: exportHistoryJSON_def stale_store_def stale_export_def)
  have h: "getHistory stale_store = Arr (map Entry [entry_a])"
    by (simp add: getHistory_def stale_store_def)
  have n: "getHistory null_store = NonArr" by (simp add: null_store_def)
  have en: "exportHistoryJSON null_store = Inr ?n"
    by (simp add: exportHistoryJSON_def null_store_def empty_storage_def)
  have f: "fst (importHistoryJSON ?c null_store) = import_failed"
    by (simp add: merge_import_def n)
  note merge = import_merge [of ?c stale_store "[entry_future]" None None None "[entry_a]" "[]"]
  have 2: "importHistoryJSON ?c (snd (importHistoryJSON ?c stale_store)) = importHistoryJSON ?c stale_store"
    using merge by (rule conjunct1)
  have v: "(?c = Parsed (JArray (map Entry [entry_future]))
            \<or> ?c = Parsed (JObject (IsArray (map Entry [entry_future])) None None None))
           \<and> getHistory stale_store = Arr (map Entry [entry_a])"
    using h by simp
  have m: "getHistory (snd (importHistoryJSON ?c stale_store)) =
            Arr (map Entry (sort_key ?f
              (filter (\<lambda>x. entry_id x \<noteq> [] \<and> entry_id x \<notin> entry_id ` set [entry_a]) [entry_future]
               @ [entry_a])))"
    using merge v by blast
  have "sort_key ?f
              (filter (\<lambda>x. entry_id x \<noteq> [] \<and> entry_id x \<notin> entry_id ` set [entry_a]) [entry_future]
               @ [entry_a]) = [entry_future, entry_a]"
    by (simp add: entry_future_def entry_a_def js_def)
  with m have 1: "getHistory (snd (importHistoryJSON ?c stale_store))
                    = Arr [Entry entry_future, Entry entry_a]"
    by simp
  note own = import_merge [of stale_export stale_store "[]" None None None "[entry_a]" "[]"]
  have s: "sorted_wrt (\<lambda>a b. timestamp b \<le> timestamp a) [entry_a]" by simp
  have 3: "getHistory (snd (importHistoryJSON stale_export stale_store)) = getHistory stale_store"
    using own e h s by blast
  note refused = import_merge [of ?c null_store "[]" None None None "[]" "[Entry entry_future]"]
  have "snd (importHistoryJSON ?c null_store) = null_store"
    using refused n by blast
  with f have 4: "importHistoryJSON ?c null_store = (import_failed, null_store)"
    by (simp add: prod_eq_iff)
  note own_null = import_merge [of ?n null_store "[]" None None None "[]" "[]"]
  have 5: "snd (importHistoryJSON ?n null_store) = null_store"
    using own_null en n by blast
  from 1 2 e 3 4 en 5 show ?thesis by blast
qed

text \<open>
  C3 as stated fails in its last part. In the store \<open>skewed_store\<close> the history, newest
  first by insertion, is the dictionary entry \<open>b\<close> and then the imported entry \<open>f\<close>, whose
  timestamp is the later one. Exporting that store and importing the export puts \<open>f\<close>
  before \<open>b\<close>.
\<close>

theorem export_import_reorders:
  "exportHistoryJSON skewed_store = Inr skewed_export
   \<and> getHistory skewed_store = Arr [Entry entry_b, Entry entry_future]
   \<and> getHistory (snd (importHistoryJSON skewed_export skewed_store))
       = Arr [Entry entry_future, Entry entry_b]
   \<and> getHistory (snd (importHistoryJSON skewed_export skewed_store)) \<noteq> getHistory skewed_store"
  by (simp add: skewed_export_def skewed_store_def saveDictionaryHistory_def merge_import_def
        Let_def getHistory_def empty_storage_def entry_future_def entry_b_def js_def
        exportHistoryJSON_def)

subsection \<open>Retry policy\<close>

declare retryWithBackoff_loop.simps [simp del]

lemma loop_done:
  "\<not> attempt < retries \<Longrightarrow>
     retryWithBackoff_loop fn retries d attempt n ws =
       \<lparr> outcome = Inl (NewError (js ''Max retries exceeded'')), calls = n, waits = ws \<rparr>"
  by (subst retryWithBackoff_loop.simps) simp

lemma loop_success:
  "attempt < retries \<Longrightarrow> fn n = Inr v \<Longrightarrow>
     retryWithBackoff_loop fn retries d attempt n ws = \<lparr> outcome = Inr v, calls = n + 1, waits = ws \<rparr>"
  by (subst retryWithBackoff_loop.simps) simp

lemma loop_retry:
  "attempt + 1 < retries \<Longrightarrow> fn n = Inl e \<Longrightarrow> retryable e \<Longrightarrow>
     retryWithBackoff_loop fn retries d attempt n ws =
       retryWithBackoff_loop fn retries d (attempt + 1) (n + 1) (ws @ [d * 2 ^ attempt])"
  by (subst retryWithBackoff_loop.simps) (auto simp: retryable_def classify_def split: if_splits)

lemma loop_exhausted:
  "attempt < retries \<Longrightarrow> \<not> attempt + 1 < retries \<Longrightarrow> fn n = Inl e \<Longrightarrow> retryable e \<Longrightarrow>
     retryWithBackoff_loop fn retries d attempt n ws =
       \<lparr> outcome = Inl (Rethrown e), calls = n + 1, waits = ws \<rparr>"
  by (subst retryWithBackoff_loop.simps) (auto simp: retryable_def classify_def split: if_splits)

lemma loop_terminal:
  "attempt < retries \<Longrightarrow> fn n = Inl e \<Longrightarrow> \<not> retryable e \<Longrightarrow>
     calls (retryWithBackoff_loop fn retries d attempt n ws) = n + 1
     \<and> waits (retryWithBackoff_loop fn retries d attempt n ws) = ws"
  by (subst (1 2) retryWithBackoff_loop.simps) (auto simp: retryable_def classify_def split: if_splits)

lemma loop_calls_waits:
  "calls (retryWithBackoff_loop fn retries d attempt n ws) \<le> n + (retries - attempt)
   \<and> (\<exists>j. calls (retryWithBackoff_loop fn retries d attempt n ws) = (if attempt < retries then n + 1 + j else n)
         \<and> waits (retryWithBackoff_loop fn retries d attempt n ws) = ws @ map (\<lambda>i. d * 2 ^ (attempt + i)) [0..<j])"
proof (induction "retries - attempt" arbitrary: attempt n ws)
  case 0
  then show ?case by (simp add: loop_done)
next
  case (Suc m)
  then have lt: "attempt < retries" by simp
  show ?case
  proof (cases "fn n")
    case (Inr v)
    with lt show ?thesis by (simp add: loop_success)
  next
    case (Inl e)
    show ?thesis
    proof (cases "retryable e")
      case False
      with lt Inl loop_terminal [of attempt retries fn n e d ws] show ?thesis by simp
    next
      case True
      show ?thesis
      proof (cases "attempt + 1 < retries")
        case False
        with lt Inl True show ?thesis by (simp add: loop_exhausted)
      next
        case more: True
        from Suc.hyps(2) have m: "m = retries - (attempt + 1)" by simp
        from Suc.hyps(1) [OF m, of "n + 1" "ws @ [d * 2 ^ attempt]"] more
        obtain j where
          c: "calls (retryWithBackoff_loop fn retries d (attempt + 1) (n + 1) (ws @ [d * 2 ^ attempt])) \<le> n + 1 + (retries - (attempt + 1))"
          and cj: "calls (retryWithBackoff_loop fn retries d (attempt + 1) (n + 1) (ws @ [d * 2 ^ attempt])) = n + 1 + 1 + j"
          and w: "waits (retryWithBackoff_loop fn retries d (attempt + 1) (n + 1) (ws @ [d * 2 ^ attempt])) =
                  (ws @ [d * 2 ^ attempt]) @ map (\<lambda>i. d * 2 ^ (attempt + 1 + i)) [0..<j]"
          by auto
        have shift: "[d * 2 ^ attempt] @ map (\<lambda>i. d * 2 ^ (attempt + 1 + i)) [0..<j]
                     = map (\<lambda>i. d * 2 ^ (attempt + i)) [0..<Suc j]"
          by (simp add: upt_rec [of 0 "Suc j"] map_Suc_upt [symmetric] del: upt_Suc)
        have "waits (retryWithBackoff_loop fn retries d (attempt + 1) (n + 1) (ws @ [d * 2 ^ attempt])) =
               ws @ map (\<lambda>i. d * 2 ^ (attempt + i)) [0..<Suc j]"
          using w shift by (simp del: upt_Suc)
        with c cj lt more Inl True show ?thesis
          by (simp add: loop_retry del: upt_Suc)
      qed
    qed
  qed
qed

lemma fails_retryably_iff:
  "fails_retryably fn k \<longleftrightarrow> (\<forall>i<k. \<exists>e. fn i = Inl e \<and> retryable e)"
proof -
  have "(case x of Inl e \<Rightarrow> classify e = RateLimited \<or> classify e = ServiceUnavailable | Inr v \<Rightarrow> False)
        \<longleftrightarrow> (\<exists>e. x = Inl e \<and> retryable e)" for x :: "js_error + 'a"
    by (cases x) (simp_all add: retryable_def)
  then show ?thesis
    by (auto simp: fails_retryably_def list_all_iff)
qed

lemma loop_then_success:
  "attempt + j < retries \<Longrightarrow> \<forall>i<j. \<exists>e. fn (n + i) = Inl e \<and> retryable e \<Longrightarrow> fn (n + j) = Inr v \<Longrightarrow>
     outcome (retryWithBackoff_loop fn retries d attempt n ws) = Inr v
     \<and> calls (retryWithBackoff_loop fn retries d attempt n ws) = n + j + 1"
proof (induction j arbitrary: attempt n ws)
  case 0
  then show ?case by (simp add: loop_success)
next
  case (Suc j)
  from Suc.prems(2) obtain e where e: "fn n = Inl e" "retryable e" by force
  have rest: "\<forall>i<j. \<exists>e. fn (n + 1 + i) = Inl e \<and> retryable e"
    using Suc.prems(2) by (metis Suc_less_eq add.assoc plus_1_eq_Suc)
  have "attempt + 1 + j < retries" using Suc.prems(1) by simp
  from Suc.IH [OF this rest, where ws = "ws @ [d * 2 ^ attempt]"] Suc.prems(3)
  have "outcome (retryWithBackoff_loop fn retries d (attempt + 1) (n + 1) (ws @ [d * 2 ^ attempt])) = Inr v
     \<and> calls (retryWithBackoff_loop fn retries d (attempt + 1) (n + 1) (ws @ [d * 2 ^ attempt])) = n + 1 + j + 1"
    by simp
  moreover have "attempt + 1 < retries" using Suc.prems(1) by simp
  ultimately show ?case using e by (simp add: loop_retry)
qed

lemma loop_then_exhausted:
  "attempt < retries \<Longrightarrow> \<forall>i < retries - attempt. \<exists>e. fn (n + i) = Inl e \<and> retryable e \<Longrightarrow>
   fn (n + (retries - attempt - 1)) = Inl e \<Longrightarrow>
     outcome (retryWithBackoff_loop fn retries d attempt n ws) = Inl (Rethrown e)
     \<and> calls (retryWithBackoff_loop fn retries d attempt n ws) = n + (retries - attempt)"
proof (induction "retries - attempt" arbitrary: attempt n ws)
  case 0
  then show ?case by simp
next
  case (Suc m)
  from Suc.prems(2) Suc.prems(1) obtain e0 where e0: "fn n = Inl e0" "retryable e0" by force
  show ?case
  proof (cases "attempt + 1 < retries")
    case False
    with Suc.prems(1) have "retries - attempt - 1 = 0" by simp
    with Suc.prems(3) e0 have "e0 = e" by simp
    with False Suc.prems(1) e0 show ?thesis by (simp add: loop_exhausted)
  next
    case True
    have m: "m = retries - (attempt + 1)" using Suc.hyps(2) by simp
    have rest: "\<forall>i < retries - (attempt + 1). \<exists>e. fn (n + 1 + i) = Inl e \<and> retryable e"
    proof (intro allI impI)
      fix i assume "i < retries - (attempt + 1)"
      then have "Suc i < retries - attempt" by simp
      with Suc.prems(2) have "\<exists>e. fn (n + Suc i) = Inl e \<and> retryable e" by blast
      then show "\<exists>e. fn (n + 1 + i) = Inl e \<and> retryable e" by simp
    qed
    have "n + 1 + (retries - (attempt + 1) - 1) = n + (retries - attempt - 1)"
      using True by arith
    then have last: "fn (n + 1 + (retries - (attempt + 1) - 1)) = Inl e"
      using Suc.prems(3) by (simp only:)
    from Suc.hyps(1) [OF m True rest last, of "ws @ [d * 2 ^ attempt]"] True e0
    show ?thesis by (simp add: loop_retry)
  qed
qed

text \<open>
  C2. For any operation, attempt budget and base delay: the wrapper calls the operation
  at most \<open>retries\<close> times, and the delay it waits after failed attempt number \<open>attempt\<close>
  is \<open>initialDelay \<cdot> 2^(attempt - 1)\<close>, one delay before each further call. When the first
  \<open>k\<close> calls fail with rate-limit or service-unavailable errors and call \<open>k\<close> succeeds
  within the budget, the wrapper returns that result and has made no further call. When
  all \<open>retries\<close> calls so fail, it throws the error of the last one. With the defaults,
  3 and 2000, that is at most three calls and the delays 2000 and 4000.
\<close>

theorem retry_policy:
  "calls (retryWithBackoff fn retries initialDelay) \<le> retries
   \<and> waits (retryWithBackoff fn retries initialDelay) =
       map (\<lambda>attempt. initialDelay * 2 ^ (attempt - 1))
         [1..<calls (retryWithBackoff fn retries initialDelay)]
   \<and> (k < retries \<and> fails_retryably fn k \<and> fn k = Inr v \<longrightarrow>
        outcome (retryWithBackoff fn retries initialDelay) = Inr v
        \<and> calls (retryWithBackoff fn retries initialDelay) = k + 1)
   \<and> (0 < retries \<and> fails_retryably fn retries \<and> fn (retries - 1) = Inl e \<longrightarrow>
        outcome (retryWithBackoff fn retries initialDelay) = Inl (Rethrown e)
        \<and> calls (retryWithBackoff fn retries initialDelay) = retries)"
proof (intro conjI impI)
  let ?r = "retryWithBackoff_loop fn retries initialDelay 0 0 []"
  have cw: "calls ?r \<le> retries
            \<and> waits ?r = map (\<lambda>attempt. initialDelay * 2 ^ (attempt - 1)) [1..<calls ?r]"
  proof (cases "0 < retries")
    case False
    then show ?thesis by (simp add: loop_done)
  next
    case True
    with loop_calls_waits [of fn retries initialDelay 0 0 "[]"]
    obtain j where c: "calls ?r \<le> retries" and cj: "calls ?r = Suc j"
      and w: "waits ?r = map (\<lambda>i. initialDelay * 2 ^ i) [0..<j]"
      by auto
    have "map (\<lambda>attempt. initialDelay * 2 ^ (attempt - 1)) [Suc 0..<Suc j]
          = map (\<lambda>i. initialDelay * 2 ^ i) [0..<j]"
      unfolding map_Suc_upt [symmetric] by (simp add: o_def)
    with c cj w show ?thesis by (simp del: upt_Suc)
  qed
  from cw show "calls (retryWithBackoff fn retries initialDelay) \<le> retries"
    by (simp add: retryWithBackoff_def)
  from cw show "waits (retryWithBackoff fn retries initialDelay) =
       map (\<lambda>attempt. initialDelay * 2 ^ (attempt - 1))
         [1..<calls (retryWithBackoff fn retries initialDelay)]"
    by (simp add: retryWithBackoff_def)
next
  assume a: "k < retries \<and> fails_retryably fn k \<and> fn k = Inr v"
  then have "\<forall>i<k. \<exists>e. fn (0 + i) = Inl e \<and> retryable e" by (simp add: fails_retryably_iff)
  with a loop_then_success [of 0 k retries fn 0 v initialDelay "[]"]
  show "outcome (retryWithBackoff fn retries initialDelay) = Inr v"
    and "calls (retryWithBackoff fn retries initialDelay) = k + 1"
    by (simp_all add: retryWithBackoff_def)
next
  assume a: "0 < retries \<and> fails_retryably fn retries \<and> fn (retries - 1) = Inl e"
  then have "\<forall>i<retries - 0. \<exists>e. fn (0 + i) = Inl e \<and> retryable e" by (simp add: fails_retryably_iff)
  with a loop_then_exhausted [of 0 retries fn 0 e initialDelay "[]"]
  show "outcome (retryWithBackoff fn retries initialDelay) = Inl (Rethrown e)"
    and "calls (retryWithBackoff fn retries initialDelay) = retries"
    by (simp_all add: retryWithBackoff_def)
qed

lemma classify_rate: "classify rate_limit_error = RateLimited"
  by code_simp

lemma classify_over: "classify overloaded_error = ServiceUnavailable"
  by (simp add: classify_def msg_of_def overloaded_error_def js_def js_includes_def sublist_code prefix_code)

theorem retry_policy_witness:
  "outcome (retryWithBackoff flaky 3 2000) = Inr 7
   \<and> calls (retryWithBackoff flaky 3 2000) = 3
   \<and> waits (retryWithBackoff flaky 3 2000) = [2000, 4000]
   \<and> outcome (retryWithBackoff down 3 2000) = Inl (Rethrown overloaded_error)
   \<and> calls (retryWithBackoff down 3 2000) = 3
   \<and> waits (retryWithBackoff down 3 2000) = [2000, 4000]"
proof -
  have f: "(2::nat) < 3 \<and> fails_retryably flaky 2 \<and> flaky 2 = Inr 7"
    by (simp add: fails_retryably_def flaky_def classify_rate list_all_iff)
  have g: "(0::nat) < 3 \<and> fails_retryably down 3 \<and> down (3 - 1) = Inl overloaded_error"
    by (simp add: fails_retryably_def down_def classify_over list_all_iff)
  have u: "[Suc 0..<3] = [Suc 0, 2]" by (simp add: eval_nat_numeral)
  show ?thesis
    using retry_policy [of flaky 3 2000 2 7 overloaded_error] f
          retry_policy [of down 3 2000 0 7 overloaded_error] g
    by (simp add: u)
qed

subsection \<open>Request tokens\<close>

lemma trim_nonblank: "trim (js ''I is here.'') \<noteq> []"
  by (simp add: trim_def js_def js_whitespace_def)

text \<open>A handler that begins a request makes the clock reading the request's token and
  the active token, whatever tokens were issued before.\<close>

lemma check_begin_token:
  "handleCheckGrammar_begin now st = (Some req, st') \<Longrightarrow>
     requestId req = now \<and> capturedText req = inputText st \<and> activeRequestIdRef st' = now"
  by (auto simp: handleCheckGrammar_begin_def Let_def split: if_splits)

lemma rewrite_begin_token:
  "handleRewrite_begin now st = (Some req, st') \<Longrightarrow>
     requestId req = now \<and> capturedText req = inputText st \<and> activeRequestIdRef st' = now"
  by (auto simp: handleRewrite_begin_def Let_def split: if_splits)

text \<open>The guard: a continuation whose token is not the active one returns the state it
  found, in its success and in its failure branch: no result, no history entry, no
  alert, no console output.\<close>

lemma stale_check_inert:
  "activeRequestIdRef st \<noteq> requestId req \<Longrightarrow>
     handleCheckGrammar_settled req settled uuid now shuffled st = st"
  by (simp add: handleCheckGrammar_settled_def split: sum.splits)

lemma stale_rewrite_inert:
  "activeRequestIdRef st \<noteq> requestId req \<Longrightarrow> handleRewrite_settled req settled uuid now st = st"
  by (simp add: handleRewrite_settled_def split: sum.splits)

text \<open>Hence a request is superseded by any later begin, of either class, that reads a
  different clock value, and by \<open>handleStop\<close> and \<open>handleClear\<close> unless its token is 0.\<close>

lemma superseded_by_other_reading:
  assumes "handleCheckGrammar_begin now' st = (Some req', st')
           \<or> handleRewrite_begin now' st = (Some req', st')"
    and "requestId req \<noteq> now'"
  shows "handleCheckGrammar_settled req settled uuid now shuffled st' = st'"
    and "handleRewrite_settled req settled' uuid now st' = st'"
  using assms check_begin_token [of now' st req' st'] rewrite_begin_token [of now' st req' st']
  by (auto intro!: stale_check_inert stale_rewrite_inert)

lemma superseded_by_stop:
  assumes "requestId req \<noteq> 0"
  shows "handleCheckGrammar_settled req settled uuid now shuffled (handleStop st) = handleStop st"
    and "handleCheckGrammar_settled req settled uuid now shuffled (handleClear st) = handleClear st"
    and "handleRewrite_settled req settled' uuid now (handleStop st) = handleStop st"
    and "handleRewrite_settled req settled' uuid now (handleClear st) = handleClear st"
  using assms
  by (auto intro!: stale_check_inert stale_rewrite_inert simp: handleStop_def handleClear_def)

text \<open>
  C4 requires every begin to mint a token strictly greater than all earlier ones, also
  for two actions within one millisecond. The handlers take the token from \<open>Date.now()\<close>:
  two begins that read the same clock value \<open>T0\<close> get the same token, for grammar checks
  and for rewrites.
\<close>

theorem same_reading_same_token:
  "map_option requestId (fst (handleCheckGrammar_begin T0 app0)) = Some T0
   \<and> map_option requestId
        (fst (handleCheckGrammar_begin T0 (snd (handleCheckGrammar_begin T0 app0)))) = Some T0
   \<and> map_option requestId (fst (handleRewrite_begin T0 app0)) = Some T0
   \<and> map_option requestId
        (fst (handleRewrite_begin T0 (snd (handleRewrite_begin T0 app0)))) = Some T0"
  using trim_nonblank
  by (simp add: handleCheckGrammar_begin_def handleRewrite_begin_def app0_def initial_App_def
        setInputText_def Let_def)

text \<open>
  C1 requires that of two overlapping actions of one class only the second commits. Two
  grammar checks begin at the same clock reading and so share the token \<open>T0\<close>. When the
  first call resolves, its continuation finds its token active: it sets the result and
  writes a history entry (or, had the call failed, raises the alert). When the second
  call resolves it commits as well, and the history holds both entries.
\<close>

theorem superseded_check_commits:
  "fst (handleCheckGrammar_begin T0 app0) = Some request_T0
   \<and> fst (handleCheckGrammar_begin T0 (snd (handleCheckGrammar_begin T0 app0))) = Some request_T0
   \<and> grammarResult after_two_checks = None
   \<and> getHistory (localStorage after_two_checks) = Arr []
   \<and> grammarResult first_check_settled = Some analysis_1
   \<and> loadingState first_check_settled = SUCCESS
   \<and> getHistory (localStorage first_check_settled) = Arr [Entry saved_check_1]
   \<and> alerts (handleCheckGrammar_settled request_T0 (Inl (NewError (js ''PERMISSION_DENIED'')))
               (js ''id-1'') (T0 + 900) [] after_two_checks) = [permissionDenied]
   \<and> grammarResult second_check_settled = Some analysis_2
   \<and> getHistory (localStorage second_check_settled) = Arr [Entry saved_check_2, Entry saved_check_1]"
  using trim_nonblank
  by (simp add: second_check_settled_def first_check_settled_def after_two_checks_def
        handleCheckGrammar_begin_def handleCheckGrammar_settled_def
        app0_def initial_App_def setInputText_def Let_def request_T0_def saveHistory_def
        report_error_def getHistory_def empty_storage_def js_includes_def
        saved_check_1_def saved_check_2_def analysis_1_def analysis_2_def js_def)

text \<open>
  C10 says that, the token cell being shared, a rewrite begun while a grammar check is
  in flight makes the check's completion commit nothing. The cell is shared (see
  \<open>superseded_by_other_reading\<close>), but when the rewrite begins at the clock reading of
  the check, both hold the token \<open>T0\<close>: the check's result is committed while the rewrite
  is in flight, and then the rewrite's result too.
\<close>

theorem check_and_rewrite_both_commit:
  "fst (handleCheckGrammar_begin T0 app0) = Some request_T0
   \<and> fst (handleRewrite_begin T0 (snd (handleCheckGrammar_begin T0 app0))) = Some request_T0
   \<and> grammarResult after_check_and_rewrite = None
   \<and> grammarResult check_settled_during_rewrite = Some analysis_1
   \<and> getHistory (localStorage check_settled_during_rewrite) = Arr [Entry saved_check_1]
   \<and> grammarResult rewrite_settled_after_check = Some analysis_1
   \<and> rewriteResult rewrite_settled_after_check = Some rewrite_1
   \<and> getHistory (localStorage rewrite_settled_after_check)
       = Arr [Entry saved_rewrite_2, Entry saved_check_1]"
  using trim_nonblank
  by (simp add: rewrite_settled_after_check_def check_settled_during_rewrite_def
        after_check_and_rewrite_def handleCheckGrammar_begin_def handleRewrite_begin_def
        handleCheckGrammar_settled_def handleRewrite_settled_def
        app0_def initial_App_def setInputText_def Let_def request_T0_def saveHistory_def
        saveRewriteHistory_def getHistory_def empty_storage_def
        saved_check_1_def saved_rewrite_2_def analysis_1_def rewrite_1_def js_def)

subsection \<open>Statistics\<close>

declare quantum_exp.simps [simp del]

text \<open>The exponent search stops at a significand of at least \<open>2^52\<close>, or at the
  subnormal quantum.\<close>

lemma quantum_exp_result:
  "k \<le> quantum_exp a b k \<and> (b * 2 ^ 52 \<le> a * 2 ^ quantum_exp a b k \<or> 1074 \<le> quantum_exp a b k)"
proof (induction a b k rule: quantum_exp.induct)
  case (1 a b k)
  show ?case
  proof (cases "b * 2 ^ 52 \<le> a * 2 ^ k \<or> 1074 \<le> k")
    case True
    then show ?thesis by (subst (1 2 3) quantum_exp.simps) auto
  next
    case False
    with 1 have "k + 1 \<le> quantum_exp a b (k + 1) \<and>
      (b * 2 ^ 52 \<le> a * 2 ^ quantum_exp a b (k + 1) \<or> 1074 \<le> quantum_exp a b (k + 1))"
      by simp
    moreover have "quantum_exp a b k = quantum_exp a b (k + 1)"
      using False by (subst quantum_exp.simps) auto
    ultimately show ?thesis by simp
  qed
qed

text \<open>Rounding moves the significand by at most one half, so the value by at most half
  a quantum.\<close>

lemma round_to_double_half:
  assumes "0 < b"
  shows "\<bar>real (fst (round_to_double a b)) - real a * 2 ^ snd (round_to_double a b) / real b\<bar> \<le> 1 / 2"
proof -
  define k where "k = quantum_exp a b 0"
  define n where "n = a * 2 ^ k"
  define q where "q = n div b"
  define r where "r = n mod b"
  have "n = q * b + r" by (simp add: q_def r_def)
  then have "real n = real q * real b + real r" by (metis of_nat_add of_nat_mult)
  with assms have quot: "real n / real b = real q + real r / real b"
    by (simp add: field_simps)
  have rb: "r < b" using assms by (simp add: r_def)
  have snd: "snd (round_to_double a b) = k"
    by (simp add: round_to_double_def Let_def k_def)
  have fst: "fst (round_to_double a b) =
      (if 2 * r < b then q else if b < 2 * r then q + 1 else if even q then q else q + 1)"
    by (simp add: round_to_double_def Let_def k_def n_def q_def r_def)
  have n': "real a * 2 ^ k = real n" by (simp add: n_def)
  consider "2 * r < b" | "b < 2 * r" | "2 * r = b" by linarith
  then show ?thesis
  proof cases
    case 1
    then have "real r / real b \<le> 1 / 2" using assms by (simp add: field_simps)
    with 1 show ?thesis by (simp add: fst snd n' quot)
  next
    case 2
    then have "1 / 2 \<le> real r / real b" using assms by (simp add: field_simps)
    moreover have "real r / real b \<le> 1" using rb assms by simp
    ultimately show ?thesis using 2 by (simp add: fst snd n' quot abs_if)
  next
    case 3
    then have "real r / real b = 1 / 2" using assms by (simp add: field_simps)
    with 3 show ?thesis by (simp add: fst snd n' quot)
  qed
qed

lemma round_to_double_error:
  assumes "0 < b"
  shows "\<bar>double_value (round_to_double a b) - real a / real b\<bar> \<le> 1 / 2 ^ (snd (round_to_double a b) + 1)"
proof -
  let ?m = "fst (round_to_double a b)" and ?k = "snd (round_to_double a b)"
  have "double_value (round_to_double a b) - real a / real b
        = (real ?m - real a * 2 ^ ?k / real b) / 2 ^ ?k"
    by (simp add: double_value_def field_simps)
  then have "\<bar>double_value (round_to_double a b) - real a / real b\<bar>
        = \<bar>real ?m - real a * 2 ^ ?k / real b\<bar> / 2 ^ ?k"
    by (simp add: abs_divide)
  also have "\<dots> \<le> (1 / 2) / 2 ^ ?k"
    by (rule divide_right_mono [OF round_to_double_half [OF assms]]) simp
  finally show ?thesis by simp
qed

lemma round_to_double_exp:
  "b * 2 ^ 52 \<le> a * 2 ^ snd (round_to_double a b) \<or> 1074 \<le> snd (round_to_double a b)"
  using quantum_exp_result [of 0 a b] by (simp add: round_to_double_def Let_def)

lemma Math_round_floor: "int (Math_round x) = \<lfloor>double_value x + 1 / 2\<rfloor>"
proof -
  have "double_value x + 1 / 2 = real (2 * fst x + 2 ^ snd x) / real (2 ^ (snd x + 1))"
    by (simp add: double_value_def field_simps)
  then show ?thesis
    unfolding Math_round_def by (simp only: floor_divide_of_nat_eq)
qed

lemma double_div_error:
  assumes "0 < t" "p \<le> t"
  shows "\<bar>double_value (double_div p t) - real p / real t\<bar> \<le> 1 / 2 ^ 53"
proof -
  let ?k = "snd (round_to_double p t)"
  have "52 \<le> ?k"
  proof (rule ccontr)
    assume "\<not> 52 \<le> ?k"
    then have k: "?k < 52" by simp
    with round_to_double_exp [of t p] have "t * 2 ^ 52 \<le> p * 2 ^ ?k" by simp
    also have "\<dots> \<le> t * 2 ^ ?k" using assms by simp
    finally have le: "(2::nat) ^ 52 \<le> 2 ^ ?k" using assms by simp
    have one: "(1::nat) < 2" by simp
    from power_le_imp_le_exp [OF one le] k show False by simp
  qed
  then have "(2::real) ^ 53 \<le> 2 ^ (?k + 1)" by (intro power_increasing) simp_all
  then have "1 / (2::real) ^ (?k + 1) \<le> 1 / 2 ^ 53"
    by (intro frac_le) simp_all
  with round_to_double_error [OF assms(1), of p] show ?thesis
    unfolding double_div_def by linarith
qed

lemma double_mul_error:
  assumes "double_value x \<le> 5 / 4"
  shows "\<bar>double_value (double_mul x 100) - 100 * double_value x\<bar> \<le> 1 / 2 ^ 47"
proof -
  let ?a = "fst x * 100" and ?b = "(2::nat) ^ snd x"
  let ?k = "snd (round_to_double ?a ?b)"
  have pos: "0 < ?b" by simp
  have exact: "real ?a / real ?b = 100 * double_value x"
    by (simp add: double_value_def)
  have "46 \<le> ?k"
  proof (rule ccontr)
    assume "\<not> 46 \<le> ?k"
    then have k: "?k \<le> 45" by simp
    with round_to_double_exp [of ?b ?a] have "?b * 2 ^ 52 \<le> ?a * 2 ^ ?k" by simp
    also have "\<dots> \<le> ?a * 2 ^ 45" using k by (intro mult_left_mono power_increasing) simp_all
    finally have "real (?b * 2 ^ 52) \<le> real (?a * 2 ^ 45)" by (simp only: of_nat_le_iff)
    then have "real ?b * 2 ^ 52 \<le> real ?a * 2 ^ 45" by simp
    then have "2 ^ 52 \<le> (real ?a / real ?b) * 2 ^ 45" by (simp add: field_simps)
    with exact have "(2::real) ^ 52 \<le> 100 * double_value x * 2 ^ 45" by simp
    with assms show False by simp
  qed
  then have "(2::real) ^ 47 \<le> 2 ^ (?k + 1)" by (intro power_increasing) simp_all
  then have "1 / (2::real) ^ (?k + 1) \<le> 1 / 2 ^ 47"
    by (intro frac_le) simp_all
  with round_to_double_error [OF pos, of ?a] exact show ?thesis
    unfolding double_mul_def by linarith
qed

text \<open>The two roundings together stay within a quarter of the exact percentage, and
  \<open>Math.round\<close> adds at most a half.\<close>

lemma accuracy_near_exact:
  assumes "0 < t" "p \<le> t"
  shows "\<bar>real (Math_round (double_mul (double_div p t) 100)) - 100 * real p / real t\<bar> < 1"
proof -
  let ?x = "double_value (double_div p t)" and ?y = "double_value (double_mul (double_div p t) 100)"
  define c where "c = real p / real t"
  have q: "c \<le> 1" using assms by (simp add: c_def)
  have c: "100 * real p / real t = 100 * c" by (simp add: c_def)
  have s1: "(1::real) / 2 ^ 53 \<le> 1 / 1000" and s2: "(1::real) / 2 ^ 47 \<le> 1 / 8" by simp_all
  have e1: "\<bar>?x - c\<bar> \<le> 1 / 2 ^ 53"
    unfolding c_def by (rule double_div_error [OF assms])
  with s1 q have "?x \<le> 5 / 4" by linarith
  then have e2: "\<bar>?y - 100 * ?x\<bar> \<le> 1 / 2 ^ 47" by (rule double_mul_error)
  from e1 e2 s1 s2 have e: "\<bar>?y - 100 * c\<bar> \<le> 1 / 4" by linarith
  have r: "real (Math_round (double_mul (double_div p t) 100)) = of_int \<lfloor>?y + 1 / 2\<rfloor>"
    using Math_round_floor [of "double_mul (double_div p t) 100"] by (metis of_int_of_nat_eq)
  have "of_int \<lfloor>?y + 1 / 2\<rfloor> \<le> ?y + 1 / 2" and "?y + 1 / 2 < of_int \<lfloor>?y + 1 / 2\<rfloor> + 1"
    by linarith+
  with e show ?thesis unfolding r c by linarith
qed

lemma foldl_errorCount:
  "foldl (\<lambda>sum item. sum + errorCount item) a g = a + sum_list (map errorCount g)"
  by (induction g arbitrary: a) simp_all

lemma getStats_fields:
  fixes es
  defines "g \<equiv> filter (\<lambda>h. entry_type h = Some grammar \<or> entry_type h = None) es"
  assumes "getHistory ls = Arr (map Entry es)"
  shows "getStats ls =
     Inr (if length g = 0 then \<lparr> totalChecks = 0, totalErrors = 0, accuracyRate = 0, perfectRuns = 0 \<rparr>
          else \<lparr> totalChecks = int (length g), totalErrors = sum_list (map errorCount g),
                 accuracyRate = int (Math_round (double_mul (double_div (length (filter isPerfect g)) (length g)) 100)),
                 perfectRuns = int (length (filter isPerfect g)) \<rparr>)"
  using assms(2) by (simp add: getStats_def Let_def g_def foldl_errorCount)

lemma getStats_throws:
  "getHistory ls = NonArr \<or> (\<exists>xs. getHistory ls = Arr xs \<and> Null \<in> set xs) \<Longrightarrow>
     getStats ls = Inl TypeError"
  by (auto simp: getStats_def)

lemma getHistory_checks_store:
  "getHistory (checks_store p t) = Arr (map Entry (map (\<lambda>i. numbered_entry i (i < p)) [0..<t]))"
  by (simp add: checks_store_def)

lemma checks_store_counts:
  "p \<le> t \<Longrightarrow>
   length (filter (\<lambda>h. entry_type h = Some grammar \<or> entry_type h = None)
             (map (\<lambda>i. numbered_entry i (i < p)) [0..<t])) = t
   \<and> length (filter isPerfect (filter (\<lambda>h. entry_type h = Some grammar \<or> entry_type h = None)
        (map (\<lambda>i. numbered_entry i (i < p)) [0..<t]))) = p
   \<and> sum_list (map errorCount (filter (\<lambda>h. entry_type h = Some grammar \<or> entry_type h = None)
        (map (\<lambda>i. numbered_entry i (i < p)) [0..<t]))) = 2 * (int t - int p)"
proof -
  assume le: "p \<le> t"
  then have "filter (\<lambda>i. i < p) [0..<t] = [0..<p]"
    by (induction t) (auto simp: le_Suc_eq)
  moreover have "sum_list (map (\<lambda>i. if i < p then 0 else 2) [0..<t]) = 2 * int (t - p)"
    by (induction t) (auto simp: Suc_diff_le)
  ultimately show ?thesis
    using le by (simp add: numbered_entry_def filter_map o_def of_nat_diff)
qed

lemmas double_eval =
  Math_round_def double_mul_def double_div_def round_to_double_def Let_def quantum_exp.simps

text \<open>
  The model on known doubles: \<open>1 / 3\<close> is \<open>6004799503160661 / 2^54\<close>
  (\<open>0x3FD5555555555555\<close>), \<open>23 / 40\<close> is \<open>5179139571476070 / 2^53\<close>, and that times 100
  is \<open>8092405580431359 / 2^47\<close>, the double \<open>57.49999999999999\<close>.
\<close>

lemma double_examples:
  "double_div 1 3 = (6004799503160661, 54)"
  "double_div 23 40 = (5179139571476070, 53)"
  "double_mul (double_div 23 40) 100 = (8092405580431359, 47)"
  by (simp_all add: double_eval)

text \<open>
  C7, as amended. On a stored history that is an array of entries, \<open>getStats\<close> counts
  the entries of type grammar or without a type: \<open>totalChecks\<close> is their number,
  \<open>totalErrors\<close> the sum of their \<open>errorCount\<close>, \<open>perfectRuns\<close> the number of them with
  \<open>isPerfect\<close>, and all four fields are zero when there are none. Otherwise
  \<open>accuracyRate\<close> is \<open>Math.round\<close> of the double \<open>(perfectRuns / totalChecks) * 100\<close>; it
  differs from the exact percentage \<open>100 \<cdot> perfectRuns / totalChecks\<close> by less than 1,
  and it is 33 for three entries of which one is perfect. On a stored history that is
  not an array, or holds a \<open>null\<close>, \<open>getStats\<close> throws a \<open>TypeError\<close>.
\<close>

theorem getStats_values:
  "(getHistory ls = Arr (map Entry es) \<longrightarrow>
     (let g = filter (\<lambda>h. entry_type h = Some grammar \<or> entry_type h = None) es;
          t = length g; p = length (filter isPerfect g)
      in \<exists>s. getStats ls = Inr s
         \<and> totalChecks s = int t
         \<and> totalErrors s = sum_list (map errorCount g)
         \<and> perfectRuns s = int p
         \<and> (t = 0 \<longrightarrow> s = \<lparr> totalChecks = 0, totalErrors = 0, accuracyRate = 0, perfectRuns = 0 \<rparr>)
         \<and> (0 < t \<longrightarrow> accuracyRate s = int (Math_round (double_mul (double_div p t) 100))
                      \<and> 100 * int p - int t < accuracyRate s * int t
                      \<and> accuracyRate s * int t < 100 * int p + int t)
         \<and> (t = 3 \<and> p = 1 \<longrightarrow> accuracyRate s = 33)))
   \<and> (getHistory ls = NonArr \<or> (\<exists>xs. getHistory ls = Arr xs \<and> Null \<in> set xs) \<longrightarrow>
        getStats ls = Inl TypeError)"
proof (intro conjI impI)
  assume "getHistory ls = NonArr \<or> (\<exists>xs. getHistory ls = Arr xs \<and> Null \<in> set xs)"
  then show "getStats ls = Inl TypeError" by (rule getStats_throws)
next
  assume h: "getHistory ls = Arr (map Entry es)"
  let ?g = "filter (\<lambda>h. entry_type h = Some grammar \<or> entry_type h = None) es"
  let ?t = "length ?g" and ?p = "length (filter isPerfect ?g)"
  let ?acc = "Math_round (double_mul (double_div ?p ?t) 100)"
  define s where "s = (if ?t = 0 then \<lparr> totalChecks = 0, totalErrors = 0, accuracyRate = 0, perfectRuns = 0 \<rparr>
          else \<lparr> totalChecks = int ?t, totalErrors = sum_list (map errorCount ?g),
                 accuracyRate = int ?acc, perfectRuns = int ?p \<rparr>)"
  have f: "getStats ls = Inr s"
    unfolding s_def using h by (rule getStats_fields)
  have basic: "totalChecks s = int ?t \<and> totalErrors s = sum_list (map errorCount ?g)
      \<and> perfectRuns s = int ?p"
    by (auto simp: s_def filter_empty_conv)
  have zero: "?t = 0 \<longrightarrow> s = \<lparr> totalChecks = 0, totalErrors = 0, accuracyRate = 0, perfectRuns = 0 \<rparr>"
    by (simp add: s_def)
  have acc: "0 < ?t \<longrightarrow> accuracyRate s = int ?acc"
    by (simp add: s_def)
  have near: "100 * int ?p - int ?t < int ?acc * int ?t \<and> int ?acc * int ?t < 100 * int ?p + int ?t"
    if t: "0 < ?t"
  proof -
    define A P T where "A = real ?acc" and "P = real ?p" and "T = real ?t"
    have T: "0 < T" using t by (simp add: T_def)
    have "?p \<le> ?t" by (rule length_filter_le)
    from accuracy_near_exact [OF t this] have "\<bar>A - 100 * P / T\<bar> < 1"
      by (simp only: A_def P_def T_def)
    then have "A - 100 * P / T < 1" and "- 1 < A - 100 * P / T"
      by linarith+
    with T have "A * T < 100 * P + T" and "100 * P - T < A * T"
      by (simp_all add: field_simps)
    then have "real_of_int (int ?acc * int ?t) < real_of_int (100 * int ?p + int ?t)"
      and "real_of_int (100 * int ?p - int ?t) < real_of_int (int ?acc * int ?t)"
      by (simp_all add: A_def P_def T_def)
    then show ?thesis by (simp only: of_int_less_iff)
  qed
  have third: "?t = 3 \<and> ?p = 1 \<longrightarrow> accuracyRate s = 33"
  proof
    assume a: "?t = 3 \<and> ?p = 1"
    have r: "Math_round (double_mul (double_div 1 3) 100) = 33"
      by (simp add: double_eval)
    from a have t3: "?t = 3" and p1: "?p = 1" by blast+
    have "0 < ?t" unfolding t3 by simp
    with acc have "accuracyRate s = int ?acc" by blast
    then show "accuracyRate s = 33" unfolding p1 t3 r by simp
  qed
  have pos: "0 < ?t \<longrightarrow> accuracyRate s = int ?acc
                   \<and> 100 * int ?p - int ?t < accuracyRate s * int ?t
                   \<and> accuracyRate s * int ?t < 100 * int ?p + int ?t"
  proof
    assume t: "0 < ?t"
    with acc have eq: "accuracyRate s = int ?acc" by blast
    from near [OF t] show "accuracyRate s = int ?acc
                   \<and> 100 * int ?p - int ?t < accuracyRate s * int ?t
                   \<and> accuracyRate s * int ?t < 100 * int ?p + int ?t"
      unfolding eq by blast
  qed
  from f basic zero pos third
  have "getStats ls = Inr s
         \<and> totalChecks s = int ?t
         \<and> totalErrors s = sum_list (map errorCount ?g)
         \<and> perfectRuns s = int ?p
         \<and> (?t = 0 \<longrightarrow> s = \<lparr> totalChecks = 0, totalErrors = 0, accuracyRate = 0, perfectRuns = 0 \<rparr>)
         \<and> (0 < ?t \<longrightarrow> accuracyRate s = int ?acc
                      \<and> 100 * int ?p - int ?t < accuracyRate s * int ?t
                      \<and> accuracyRate s * int ?t < 100 * int ?p + int ?t)
         \<and> (?t = 3 \<and> ?p = 1 \<longrightarrow> accuracyRate s = 33)"
    by blast
  then show "let g = filter (\<lambda>h. entry_type h = Some grammar \<or> entry_type h = None) es;
          t = length g; p = length (filter isPerfect g)
      in \<exists>s. getStats ls = Inr s
         \<and> totalChecks s = int t
         \<and> totalErrors s = sum_list (map errorCount g)
         \<and> perfectRuns s = int p
         \<and> (t = 0 \<longrightarrow> s = \<lparr> totalChecks = 0, totalErrors = 0, accuracyRate = 0, perfectRuns = 0 \<rparr>)
         \<and> (0 < t \<longrightarrow> accuracyRate s = int (Math_round (double_mul (double_div p t) 100))
                      \<and> 100 * int p - int t < accuracyRate s * int t
                      \<and> accuracyRate s * int t < 100 * int p + int t)
         \<and> (t = 3 \<and> p = 1 \<longrightarrow> accuracyRate s = 33)"
    unfolding Let_def by (rule exI)
qed

text \<open>Three checks of which one is perfect, the empty store, and the store whose history
  text is \<open>null\<close>.\<close>

theorem getStats_values_witness:
  "getStats (checks_store 1 3)
     = Inr \<lparr> totalChecks = 3, totalErrors = 4, accuracyRate = 33, perfectRuns = 1 \<rparr>
   \<and> getStats empty_storage
     = Inr \<lparr> totalChecks = 0, totalErrors = 0, accuracyRate = 0, perfectRuns = 0 \<rparr>
   \<and> getStats null_store = Inl TypeError"
proof -
  let ?es = "map (\<lambda>i. numbered_entry i (i < 1)) [0..<3]"
  let ?g = "filter (\<lambda>h. entry_type h = Some grammar \<or> entry_type h = None) ?es"
  have h: "getHistory (checks_store 1 3) = Arr (map Entry ?es)"
    by (rule getHistory_checks_store)
  have c: "length ?g = 3" "length (filter isPerfect ?g) = 1"
    and e: "sum_list (map errorCount ?g) = 4"
    using checks_store_counts [of 1 3] by simp_all
  note three = getStats_values [of "checks_store 1 3" ?es, unfolded Let_def, THEN conjunct1, THEN mp, OF h]
  then obtain s where s: "getStats (checks_store 1 3) = Inr s"
      and f: "totalChecks s = int (length ?g)" "totalErrors s = sum_list (map errorCount ?g)"
        "perfectRuns s = int (length (filter isPerfect ?g))"
      and a: "length ?g = 3 \<and> length (filter isPerfect ?g) = 1 \<longrightarrow> accuracyRate s = 33"
    by (elim exE conjE) blast
  from a c have "accuracyRate s = 33" by (simp only:) 
  with f have "s = \<lparr> totalChecks = 3, totalErrors = 4, accuracyRate = 33, perfectRuns = 1 \<rparr>"
    unfolding c e by (cases s) simp
  with s have 1: "getStats (checks_store 1 3)
     = Inr \<lparr> totalChecks = 3, totalErrors = 4, accuracyRate = 33, perfectRuns = 1 \<rparr>"
    by simp
  have h0: "getHistory empty_storage = Arr (map Entry [])" by simp
  note none = getStats_values [of empty_storage "[]", unfolded Let_def, THEN conjunct1, THEN mp, OF h0]
  then have 2: "getStats empty_storage
     = Inr \<lparr> totalChecks = 0, totalErrors = 0, accuracyRate = 0, perfectRuns = 0 \<rparr>"
    by auto
  have n: "getHistory null_store = NonArr \<or> (\<exists>xs. getHistory null_store = Arr xs \<and> Null \<in> set xs)"
    by (simp add: null_store_def)
  have 3: "getStats null_store = Inl TypeError"
    using getStats_values [of null_store "[]", THEN conjunct2, THEN mp, OF n] .
  from 1 2 3 show ?thesis by (intro conjI)
qed

text \<open>
  C7 as stated fails in three ways. \<open>accuracyRate\<close> is not always the exact percentage
  rounded to the nearest integer: for 23 perfect checks out of 40 the exact percentage
  is 57.5, which rounds to 58, and \<open>getStats\<close> returns 57, because the double nearest to
  23/40 lies below it and its product with 100 is the double just below 57.5 (the tie
  12.5 of 1 perfect check out of 8 is computed exactly and goes up, to 13). An entry
  without a type, here one imported from an old backup, is counted although it is not
  of the grammar category. And on the store whose history text is \<open>null\<close> nothing is
  returned: \<open>history.filter\<close> throws.
\<close>

theorem accuracyRate_not_nearest:
  "getStats (checks_store 23 40)
     = Inr \<lparr> totalChecks = 40, totalErrors = 34, accuracyRate = 57, perfectRuns = 23 \<rparr>
   \<and> round (100 * 23 / 40 :: real) = 58
   \<and> getStats (checks_store 1 8)
     = Inr \<lparr> totalChecks = 8, totalErrors = 14, accuracyRate = 13, perfectRuns = 1 \<rparr>
   \<and> getHistory legacy_store = Arr [Entry entry_legacy]
   \<and> entry_type entry_legacy = None
   \<and> getStats legacy_store
     = Inr \<lparr> totalChecks = 1, totalErrors = 0, accuracyRate = 100, perfectRuns = 1 \<rparr>
   \<and> getHistory null_store = NonArr
   \<and> getStats null_store = Inl TypeError"
proof -
  have a: "Math_round (double_mul (double_div 23 40) 100) = 57" by (simp add: double_eval)
  have b: "Math_round (double_mul (double_div 1 8) 100) = 13" by (simp add: double_eval)
  have z: "Math_round (double_mul (double_div 1 1) 100) = 100" by (simp add: double_eval)
  have c: "round (100 * 23 / 40 :: real) = 58" by (simp add: round_def)
  have 1: "getStats (checks_store 23 40)
     = Inr \<lparr> totalChecks = 40, totalErrors = 34, accuracyRate = 57, perfectRuns = 23 \<rparr>"
    using checks_store_counts [of 23 40] a
    by (simp add: getStats_fields [OF getHistory_checks_store])
  have 2: "getStats (checks_store 1 8)
     = Inr \<lparr> totalChecks = 8, totalErrors = 14, accuracyRate = 13, perfectRuns = 1 \<rparr>"
    using checks_store_counts [of 1 8] b
    by (simp add: getStats_fields [OF getHistory_checks_store])
  have l: "getHistory legacy_store = Arr (map Entry [entry_legacy])"
    by (simp add: legacy_store_def merge_import_def Let_def entry_legacy_def js_def)
  have t: "entry_type entry_legacy = None" "errorCount entry_legacy = 0" "isPerfect entry_legacy"
    by (simp_all add: entry_legacy_def)
  have 3: "getStats legacy_store
     = Inr \<lparr> totalChecks = 1, totalErrors = 0, accuracyRate = 100, perfectRuns = 1 \<rparr>"
    using t z by (simp add: getStats_fields [OF l])
  have n: "getHistory null_store = NonArr" by (simp add: null_store_def)
  then have 4: "getStats null_store = Inl TypeError" by (simp add: getStats_throws)
  from 1 c 2 l t(1) 3 n 4 show ?thesis by simp
qed

subsection \<open>The activity grid\<close>

text \<open>The loops in closed form: the \<open>j\<close>-th cell is made from \<open>startDate\<close> moved on \<open>j\<close>
  times by one day.\<close>

lemma weekDays_loop_eq:
  "weekDays_loop am gap today n ld =
     (map (\<lambda>i. cell_of am today ((setDate_by gap 1 ^^ i) ld)) [0..<n], (setDate_by gap 1 ^^ n) ld)"
proof (induction n arbitrary: ld)
  case 0
  show ?case by simp
next
  case (Suc n)
  have "map (\<lambda>i. cell_of am today ((setDate_by gap 1 ^^ i) ld)) [0..<Suc n]
        = cell_of am today ld
          # map (\<lambda>i. cell_of am today ((setDate_by gap 1 ^^ i) (setDate_by gap 1 ld))) [0..<n]"
    by (simp add: upt_rec [of 0 "Suc n"] map_Suc_upt [symmetric] funpow_swap1 del: upt_Suc)
  with Suc [of "setDate_by gap 1 ld"] show ?case
    by (simp add: cell_of_def Let_def funpow_swap1 del: upt_Suc)
qed

lemma weeks_loop_eq:
  "weeks_loop am gap today n ld =
     map (\<lambda>w. map (\<lambda>i. cell_of am today ((setDate_by gap 1 ^^ (7 * w + i)) ld)) [0..<7]) [0..<n]"
proof (induction n arbitrary: ld)
  case 0
  show ?case by simp
next
  case (Suc n)
  let ?f = "setDate_by gap 1"
  have shift: "(?f ^^ (7 * w + i)) ((?f ^^ 7) ld) = (?f ^^ (7 * Suc w + i)) ld" for w i
  proof -
    have "7 * Suc w + i = (7 * w + i) + 7" by simp
    then show ?thesis by (simp only: funpow_add o_apply)
  qed
  have "map (\<lambda>w. map (\<lambda>i. cell_of am today ((?f ^^ (7 * w + i)) ld)) [0..<7]) [0..<Suc n]
        = map (\<lambda>i. cell_of am today ((?f ^^ i) ld)) [0..<7]
          # map (\<lambda>w. map (\<lambda>i. cell_of am today ((?f ^^ (7 * Suc w + i)) ld)) [0..<7]) [0..<n]"
    by (simp add: upt_rec [of 0 "Suc n"] map_Suc_upt [symmetric] del: upt_Suc funpow.simps)
  with Suc [of "(?f ^^ 7) ld"] show ?case
    by (simp add: weekDays_loop_eq shift del: upt_Suc funpow.simps)
qed

lemma concat_weeks:
  "concat (map (\<lambda>w. map (\<lambda>i. f (7 * w + i)) [0..<7]) [0..<n]) = map f [0..<7 * n]"
proof (induction n)
  case 0
  show ?case by simp
next
  case (Suc n)
  have a: "[0..<7 * n + 7] = [0..<7 * n] @ [7 * n..<7 * n + 7]"
    by (rule upt_add_eq_append) simp
  have b: "[7 * n..<7 * n + 7] = map (\<lambda>i. i + 7 * n) [0..<7]"
    unfolding map_add_upt by (simp only: add.commute)
  have c: "7 * Suc n = 7 * n + 7" by simp
  have "[0..<7 * Suc n] = [0..<7 * n] @ map (\<lambda>i. i + 7 * n) [0..<7]"
    unfolding c a b ..
  then have step: "map f [0..<7 * Suc n] = map f [0..<7 * n] @ map (\<lambda>i. f (7 * n + i)) [0..<7]"
    by (simp add: o_def add.commute del: upt_Suc)
  have last: "concat (map g [0..<Suc n]) = concat (map g [0..<n]) @ g n" for g :: "nat \<Rightarrow> 'b list"
    by simp
  show ?case by (simp only: last Suc step)
qed

lemma activityMap_count:
  "(case activityMap_of tz history d of None \<Rightarrow> 0 | Some c \<Rightarrow> c)
   = length (filter (\<lambda>e. tz (timestamp e) = d) history)"
proof -
  have "(case foldl (\<lambda>activityMap entry.
              (let dateStr = tz (timestamp entry)
               in activityMap(dateStr \<mapsto> (case activityMap dateStr of None \<Rightarrow> 0 | Some c \<Rightarrow> c) + 1)))
           m history d of None \<Rightarrow> 0 | Some c \<Rightarrow> c)
        = (case m d of None \<Rightarrow> 0 | Some c \<Rightarrow> c) + length (filter (\<lambda>e. tz (timestamp e) = d) history)"
    for m :: "int \<rightharpoonup> nat"
    by (induction history arbitrary: m) (simp_all add: Let_def)
  from this [of Map.empty] show ?thesis by (simp add: activityMap_of_def)
qed

lemma activityWeeks_shape:
  "activityWeeks tz gap now history =
     map (\<lambda>w. map (\<lambda>i. cell_of (activityMap_of tz history) (today_of tz gap now)
                          ((setDate_by gap 1 ^^ (7 * w + i)) (startDate_of tz gap now))) [0..<7]) [0..<52]"
  by (simp add: activityWeeks_def Let_def weeks_loop_eq today_of_def startDate_of_def
           del: upt_Suc funpow.simps)

lemma activityWeeks_eq:
  "concat (activityWeeks tz gap now history) =
     map (\<lambda>j. cell_of (activityMap_of tz history) (today_of tz gap now)
                 ((setDate_by gap 1 ^^ j) (startDate_of tz gap now))) [0..<364]"
proof -
  have "concat (map (\<lambda>w. map (\<lambda>i. cell_of (activityMap_of tz history) (today_of tz gap now)
                          ((setDate_by gap 1 ^^ (7 * w + i)) (startDate_of tz gap now))) [0..<7]) [0..<52])
        = map (\<lambda>j. cell_of (activityMap_of tz history) (today_of tz gap now)
                 ((setDate_by gap 1 ^^ j) (startDate_of tz gap now))) [0..<7 * 52]"
    by (rule concat_weeks)
  then show ?thesis by (simp only: activityWeeks_shape) simp
qed

lemma getDay_range: "0 \<le> getDay d \<and> getDay d \<le> 6"
  by (simp add: getDay_def)

lemma day_number_today [simp]: "day_number (today_of tz gap now) = tz now"
  by (simp add: today_of_def setHours_0_def)

lemma day_number_setDate_by [simp]: "day_number (setDate_by gap n x) = day_number x + n"
  by (simp add: setDate_by_def)

lemma time_of_day_setDate_by:
  "time_of_day (setDate_by gap n x) = wall_clock gap (day_number x + n) (time_of_day x)"
  by (simp add: setDate_by_def)

lemma day_number_moved [simp]:
  "day_number ((setDate_by gap 1 ^^ j) x) = day_number x + int j"
  by (induction j) simp_all

lemma day_number_startDate [simp]:
  "day_number (startDate_of tz gap now) = tz now - getDay (tz now) - 357"
  by (simp add: startDate_of_def)

lemma cell_of_simps [simp]:
  "date (cell_of am today x) = day_number x"
  "isFuture (cell_of am today x) = getTime_greater x today"
  "count (cell_of (activityMap_of tz history) today x)
     = length (filter (\<lambda>e. tz (timestamp e) = day_number x) history)"
  by (simp_all add: cell_of_def activityMap_count)

text \<open>Where no midnight is skipped from the first day of the grid to today, every date
  involved has time of day 0.\<close>

lemma wall_clock_no_gap: "gap d = 0 \<Longrightarrow> wall_clock gap d 0 = 0"
  by (simp add: wall_clock_def)

lemma time_of_day_moved:
  assumes "time_of_day x = 0" "\<forall>i. 0 < i \<and> i \<le> j \<longrightarrow> gap (day_number x + int i) = 0"
  shows "time_of_day ((setDate_by gap 1 ^^ j) x) = 0"
  using assms(2)
proof (induction j)
  case 0
  show ?case using assms(1) by simp
next
  case (Suc j)
  then have "time_of_day ((setDate_by gap 1 ^^ j) x) = 0" by simp
  moreover have "gap (day_number x + int (Suc j)) = 0"
    using Suc.prems by blast
  then have "gap (day_number x + int j + 1) = 0"
    by (simp add: ac_simps)
  ultimately show ?case by (simp add: time_of_day_setDate_by wall_clock_no_gap)
qed

lemma time_of_day_no_gap:
  assumes "\<forall>d. tz now - getDay (tz now) - 357 \<le> d \<and> d \<le> tz now \<longrightarrow> gap d = 0"
      and "tz now - getDay (tz now) - 357 + int j \<le> tz now"
  shows "time_of_day (today_of tz gap now) = 0"
    and "time_of_day ((setDate_by gap 1 ^^ j) (startDate_of tz gap now)) = 0"
proof -
  have g: "0 \<le> getDay (tz now)" using getDay_range by blast
  show t: "time_of_day (today_of tz gap now) = 0"
    using assms(1) g by (simp add: today_of_def setHours_0_def wall_clock_no_gap)
  have "time_of_day (setDate_by gap (- getDay (tz now)) (today_of tz gap now)) = 0"
    using assms(1) g t by (simp add: setDate_by_def wall_clock_no_gap)
  then have s: "time_of_day (startDate_of tz gap now) = 0"
    using assms(1) g by (simp add: startDate_of_def setDate_by_def wall_clock_no_gap)
  show "time_of_day ((setDate_by gap 1 ^^ j) (startDate_of tz gap now)) = 0"
  proof (rule time_of_day_moved [OF s], intro allI impI)
    fix i assume "0 < i \<and> i \<le> j"
    with assms(2) have "tz now - getDay (tz now) - 357 \<le> day_number (startDate_of tz gap now) + int i
                        \<and> day_number (startDate_of tz gap now) + int i \<le> tz now"
      by simp
    with assms(1) show "gap (day_number (startDate_of tz gap now) + int i) = 0" by blast
  qed
qed

text \<open>
  Where a midnight is skipped on a day of the grid after its first and before today,
  and none today, \<open>loopDate\<close> carries the later time of day from that day on, and
  today's own cell is flagged as future.
\<close>

lemma wall_clock_ge: "0 \<le> gap d \<Longrightarrow> t \<le> wall_clock gap d t"
  by (simp add: wall_clock_def)

lemma wall_clock_ge_gap: "0 \<le> t \<Longrightarrow> gap d \<le> wall_clock gap d t"
  by (simp add: wall_clock_def)

lemma time_of_day_mono:
  assumes "\<forall>d. 0 \<le> gap d"
  shows "time_of_day ((setDate_by gap 1 ^^ i) x) \<le> time_of_day ((setDate_by gap 1 ^^ (i + k)) x)"
proof (induction k)
  case 0
  show ?case by simp
next
  case (Suc k)
  have "time_of_day ((setDate_by gap 1 ^^ (i + k)) x)
          \<le> time_of_day ((setDate_by gap 1 ^^ Suc (i + k)) x)"
    using assms by (simp add: time_of_day_setDate_by wall_clock_ge)
  with Suc show ?case by simp
qed

lemma today_flagged_after_skipped_midnight:
  assumes gaps: "\<forall>d. 0 \<le> gap d"
      and today: "gap (tz now) = 0"
      and d: "tz now - getDay (tz now) - 357 < d" "d < tz now" "0 < gap d"
  shows "\<exists>c \<in> set (concat (activityWeeks tz gap now history)). date c = tz now \<and> isFuture c"
proof -
  let ?f = "setDate_by gap 1"
  let ?start = "startDate_of tz gap now"
  let ?today = "today_of tz gap now"
  have g: "0 \<le> getDay (tz now) \<and> getDay (tz now) \<le> 6" by (rule getDay_range)
  define m where "m = nat (d - day_number ?start)"
  define k where "k = nat (tz now - day_number ?start)"
  have m: "0 < m" "day_number ?start + int m = d" and k: "m \<le> k" "k < 364"
       "day_number ?start + int k = tz now"
    using d g by (auto simp: m_def k_def)
  obtain m' where m': "m = Suc m'" using m(1) by (cases m) simp_all
  have t0: "time_of_day ?today = 0"
    using today by (simp add: today_of_def setHours_0_def wall_clock_def)
  have "0 \<le> time_of_day (setDate_by gap (- getDay (tz now)) ?today)"
    using gaps t0 wall_clock_ge [of gap "tz now - getDay (tz now)" 0]
    by (simp add: setDate_by_def)
  then have "0 \<le> time_of_day ?start"
    using gaps wall_clock_ge [of gap "tz now - getDay (tz now) - 357"
                                "time_of_day (setDate_by gap (- getDay (tz now)) ?today)"]
    by (simp add: startDate_of_def setDate_by_def)
  also have "\<dots> \<le> time_of_day ((?f ^^ m') ?start)"
    using time_of_day_mono [OF gaps, of 0 ?start m'] by simp
  finally have "0 \<le> time_of_day ((?f ^^ m') ?start)" .
  then have "gap d \<le> time_of_day ((?f ^^ m) ?start)"
    using m(2) wall_clock_ge_gap [of "time_of_day ((?f ^^ m') ?start)" gap d]
    by (simp add: m' time_of_day_setDate_by add.assoc)
  also have "\<dots> \<le> time_of_day ((?f ^^ k) ?start)"
    using time_of_day_mono [OF gaps, of m ?start "k - m"] k(1) by simp
  finally have "0 < time_of_day ((?f ^^ k) ?start)" using d(3) by simp
  then have "getTime_greater ((?f ^^ k) ?start) ?today"
    using k(3) t0 by (simp add: getTime_greater_def)
  moreover have "cell_of (activityMap_of tz history) ?today ((?f ^^ k) ?start)
                   \<in> set (concat (activityWeeks tz gap now history))"
    using k(2) by (simp add: activityWeeks_eq del: upt_Suc)
  ultimately show ?thesis using k(3) by (intro bexI) auto
qed

lemma one_index:
  assumes "0 \<le> g" "g \<le> 6"
  shows "length (filter (\<lambda>j. s - g - 357 + int j = (s::int)) [0..<364]) = 1"
proof -
  have "{j. s - g - 357 + int j = s} \<inter> set [0..<364] = {nat (g + 357)}"
    using assms by auto
  then show ?thesis
    by (simp add: distinct_length_filter del: upt_Suc)
qed

text \<open>
  C8, as amended. The grid has 52 weeks of 7 days; read in order its dates are the 364
  consecutive days that end on the Saturday of the current week, today lying in that
  last week. The count of each day is the number of history entries whose local day it
  is. Every day after today carries the future flag and no day before today does; in a
  zone where no midnight is skipped from the first day of the grid to today, a day
  carries the flag exactly when it is after today. A day after today has count 0
  provided no history entry is dated after today. With exactly one entry dated today and
  no other entry dated on a day of the grid, today's cell has count 1, all other cells
  count 0, and exactly one cell has count 1.
\<close>

theorem activity_grid:
  "let G = activityWeeks tz gap now history; today = tz now; sunday = today - getDay today in
     length G = 52 \<and> (\<forall>week\<in>set G. length week = 7)
     \<and> map date (concat G) = map (\<lambda>j. sunday - 357 + int j) [0..<364]
     \<and> sunday \<le> today \<and> today \<le> sunday + 6
     \<and> (\<forall>c\<in>set (concat G).
          count c = length (filter (\<lambda>e. tz (timestamp e) = date c) history)
          \<and> (today < date c \<longrightarrow> isFuture c)
          \<and> (date c < today \<longrightarrow> \<not> isFuture c))
     \<and> ((\<forall>d. sunday - 357 \<le> d \<and> d \<le> today \<longrightarrow> gap d = 0) \<longrightarrow>
          (\<forall>c\<in>set (concat G). isFuture c \<longleftrightarrow> today < date c))
     \<and> ((\<forall>e\<in>set history. tz (timestamp e) \<le> today) \<longrightarrow>
          (\<forall>c\<in>set (concat G). today < date c \<longrightarrow> count c = 0))
     \<and> (length (filter (\<lambda>e. tz (timestamp e) = today) history) = 1
          \<and> (\<forall>e\<in>set history. tz (timestamp e) = today \<or> tz (timestamp e) < sunday - 357
                                \<or> sunday + 6 < tz (timestamp e)) \<longrightarrow>
            length (filter (\<lambda>c. count c = 1) (concat G)) = 1
            \<and> (\<forall>c\<in>set (concat G). count c = (if date c = today then 1 else 0)))"
proof -
  let ?G = "activityWeeks tz gap now history"
  let ?today = "tz now"
  let ?sunday = "?today - getDay ?today"
  let ?am = "activityMap_of tz history"
  let ?t = "today_of tz gap now"
  let ?ld = "\<lambda>j. (setDate_by gap 1 ^^ j) (startDate_of tz gap now)"
  let ?cells = "map (\<lambda>j. cell_of ?am ?t (?ld j)) [0..<364]"
  have cells: "concat ?G = ?cells" by (rule activityWeeks_eq)
  have len: "length ?G = 52 \<and> (\<forall>week\<in>set ?G. length week = 7)"
    by (auto simp: activityWeeks_shape simp del: upt_Suc)
  have dates: "map date (concat ?G) = map (\<lambda>j. ?sunday - 357 + int j) [0..<364]"
    by (simp add: cells o_def del: upt_Suc)
  have week: "?sunday \<le> ?today \<and> ?today \<le> ?sunday + 6"
    using getDay_range [of ?today] by simp
  have each: "\<forall>c\<in>set (concat ?G).
          count c = length (filter (\<lambda>e. tz (timestamp e) = date c) history)
          \<and> (?today < date c \<longrightarrow> isFuture c)
          \<and> (date c < ?today \<longrightarrow> \<not> isFuture c)"
    by (auto simp: cells getTime_greater_def simp del: upt_Suc)
  have flags: "(\<forall>d. ?sunday - 357 \<le> d \<and> d \<le> ?today \<longrightarrow> gap d = 0) \<longrightarrow>
          (\<forall>c\<in>set (concat ?G). isFuture c \<longleftrightarrow> ?today < date c)"
  proof (intro impI ballI)
    fix c assume g: "\<forall>d. ?sunday - 357 \<le> d \<and> d \<le> ?today \<longrightarrow> gap d = 0"
      and c: "c \<in> set (concat ?G)"
    from c obtain j where j: "c = cell_of ?am ?t (?ld j)"
      by (auto simp: cells simp del: upt_Suc)
    show "isFuture c \<longleftrightarrow> ?today < date c"
    proof (cases "date c = ?today")
      case False
      with each c show ?thesis by force
    next
      case True
      with j have "?sunday - 357 + int j \<le> ?today" by simp
      with g have "time_of_day ?t = 0" "time_of_day (?ld j) = 0"
        by (rule time_of_day_no_gap)+
      with True j show ?thesis by (simp add: getTime_greater_def)
    qed
  qed
  have future: "(\<forall>e\<in>set history. tz (timestamp e) \<le> ?today) \<longrightarrow>
          (\<forall>c\<in>set (concat ?G). ?today < date c \<longrightarrow> count c = 0)"
  proof (intro impI ballI)
    fix c assume h: "\<forall>e\<in>set history. tz (timestamp e) \<le> ?today"
      and c: "c \<in> set (concat ?G)" and f: "?today < date c"
    from each c have "count c = length (filter (\<lambda>e. tz (timestamp e) = date c) history)" by auto
    moreover from h f have "filter (\<lambda>e. tz (timestamp e) = date c) history = []"
      by (auto simp: filter_empty_conv)
    ultimately show "count c = 0" by simp
  qed
  have one: "length (filter (\<lambda>e. tz (timestamp e) = ?today) history) = 1
          \<and> (\<forall>e\<in>set history. tz (timestamp e) = ?today \<or> tz (timestamp e) < ?sunday - 357
                                \<or> ?sunday + 6 < tz (timestamp e)) \<longrightarrow>
            length (filter (\<lambda>c. count c = 1) (concat ?G)) = 1
            \<and> (\<forall>c\<in>set (concat ?G). count c = (if date c = ?today then 1 else 0))"
  proof (intro impI, elim conjE)
    assume t: "length (filter (\<lambda>e. tz (timestamp e) = ?today) history) = 1"
      and o: "\<forall>e\<in>set history. tz (timestamp e) = ?today \<or> tz (timestamp e) < ?sunday - 357
                                \<or> ?sunday + 6 < tz (timestamp e)"
    have cnt: "count c = (if date c = ?today then 1 else 0)" if c: "c \<in> set (concat ?G)" for c
    proof (cases "date c = ?today")
      case True
      from each c have "count c = length (filter (\<lambda>e. tz (timestamp e) = date c) history)"
        by blast
      with True t show ?thesis by simp
    next
      case False
      from c obtain j where "j < 364" "date c = ?sunday - 357 + int j"
        by (auto simp: cells simp del: upt_Suc)
      then have "?sunday - 357 \<le> date c \<and> date c \<le> ?sunday + 6" by simp
      with o False have "filter (\<lambda>e. tz (timestamp e) = date c) history = []"
        by (auto simp: filter_empty_conv)
      moreover from each c have "count c = length (filter (\<lambda>e. tz (timestamp e) = date c) history)"
        by blast
      ultimately show ?thesis using False by simp
    qed
    then have "filter (\<lambda>c. count c = 1) (concat ?G) = filter (\<lambda>c. date c = ?today) (concat ?G)"
      by (intro filter_cong) auto
    also have "length \<dots> = length (filter (\<lambda>j. ?sunday - 357 + int j = ?today) [0..<364])"
      by (simp add: cells filter_map o_def del: upt_Suc)
    also have "\<dots> = 1"
      using one_index [of "getDay ?today" ?today] getDay_range [of ?today] by simp
    finally have "length (filter (\<lambda>c. count c = 1) (concat ?G)) = 1" .
    with cnt show "length (filter (\<lambda>c. count c = 1) (concat ?G)) = 1
            \<and> (\<forall>c\<in>set (concat ?G). count c = (if date c = ?today then 1 else 0))"
      by blast
  qed
  from len dates week each flags future one show ?thesis
    unfolding Let_def by blast
qed

text \<open>
  C8 as stated fails in two ways. First, a backup holding one entry stamped two days
  after \<open>1700000000000\<close> is imported into a store holding an entry stamped
  \<open>1700000000000\<close>; with the clock at \<open>1700000000000\<close> (a Tuesday, day 19675 in UTC)
  the cell of that Thursday is flagged as future and has count 1, and with today's
  cell two days have count 1, although there is one entry today and none in the 51
  weeks before. Second, a grammar check is saved on a Saturday (day 19679) and another
  was saved 360 days earlier, which is more than 51 weeks (357 days) before; the grid
  of that Saturday begins 363 days earlier, and both days have count 1. In both cases
  the history that \<open>loadData\<close> hands to the calendar is the stored one.
\<close>

theorem future_day_with_count:
  "getHistory ahead_store = Arr [Entry entry_ahead, Entry entry_a]
   \<and> loadData ahead_store
       = Inr (\<lparr> totalChecks = 2, totalErrors = 1, accuracyRate = 50, perfectRuns = 1 \<rparr>,
              [entry_ahead, entry_a])
   \<and> utc_day 1700000000000 = 19675
   \<and> activityWeeks utc_day no_gap 1700000000000 [entry_ahead, entry_a] ! 51 ! 2
       = \<lparr> date = 19675, count = 1, isFuture = False \<rparr>
   \<and> activityWeeks utc_day no_gap 1700000000000 [entry_ahead, entry_a] ! 51 ! 4
       = \<lparr> date = 19677, count = 1, isFuture = True \<rparr>
   \<and> getHistory year_store = Arr [Entry check_saturday, Entry check_last_year]
   \<and> loadData year_store
       = Inr (\<lparr> totalChecks = 2, totalErrors = 0, accuracyRate = 100, perfectRuns = 2 \<rparr>,
              [check_saturday, check_last_year])
   \<and> utc_day 1700265600000 = 19679
   \<and> utc_day (timestamp check_last_year) = 19679 - 360
   \<and> activityWeeks utc_day no_gap 1700265600000 [check_saturday, check_last_year] ! 0 ! 3
       = \<lparr> date = 19319, count = 1, isFuture = False \<rparr>
   \<and> activityWeeks utc_day no_gap 1700265600000 [check_saturday, check_last_year] ! 51 ! 6
       = \<lparr> date = 19679, count = 1, isFuture = False \<rparr>"
proof -
  have h: "getHistory ahead_store = Arr [Entry entry_ahead, Entry entry_a]"
    by (simp add: ahead_store_def stale_store_def merge_import_def Let_def getHistory_def
          entry_ahead_def entry_a_def js_def)
  have y: "getHistory year_store = Arr [Entry check_saturday, Entry check_last_year]"
    by (simp add: year_store_def saveHistory_def Let_def analysis_1_def check_saturday_def
          check_last_year_def js_def)
  have h': "getHistory ahead_store = Arr (map Entry [entry_ahead, entry_a])"
    using h by simp
  have y': "getHistory year_store = Arr (map Entry [check_saturday, check_last_year])"
    using y by simp
  have "Math_round (double_mul (double_div 1 2) 100) = 50"
       "Math_round (double_mul (double_div 2 2) 100) = 100"
    by (simp_all add: double_eval)
  then have r: "Math_round (double_mul (double_div (Suc 0) (Suc (Suc 0))) 100) = 50"
               "Math_round (double_mul (double_div (Suc (Suc 0)) (Suc (Suc 0))) 100) = 100"
    by (simp_all add: numeral_2_eq_2)
  have lh: "loadData ahead_store
       = Inr (\<lparr> totalChecks = 2, totalErrors = 1, accuracyRate = 50, perfectRuns = 1 \<rparr>,
              [entry_ahead, entry_a])"
    using r(1) by (simp add: loadData_def getStats_fields [OF h'] h entry_ahead_def entry_a_def)
  have ly: "loadData year_store
       = Inr (\<lparr> totalChecks = 2, totalErrors = 0, accuracyRate = 100, perfectRuns = 2 \<rparr>,
              [check_saturday, check_last_year])"
    using r(2) by (simp add: loadData_def getStats_fields [OF y'] y check_saturday_def
                      check_last_year_def)
  have t: "time_of_day ((setDate_by no_gap 1 ^^ j) x) = time_of_day x" for j x
    by (induction j) (simp_all add: time_of_day_setDate_by wall_clock_def no_gap_def)
  have cell: "cell_of am today x =
                \<lparr> date = day_number x,
                  count = (case am (day_number x) of None \<Rightarrow> 0 | Some c \<Rightarrow> c),
                  isFuture = getTime_greater x today \<rparr>" for am today x
    by (simp add: cell_of_def)
  have s: "time_of_day (startDate_of utc_day no_gap now) = 0"
          "time_of_day (today_of utc_day no_gap now) = 0" for now
    by (simp_all add: startDate_of_def today_of_def setHours_0_def time_of_day_setDate_by
          wall_clock_def no_gap_def)
  have 1: "activityWeeks utc_day no_gap 1700000000000 [entry_ahead, entry_a] ! 51 ! 2
       = \<lparr> date = 19675, count = 1, isFuture = False \<rparr>"
    by (simp add: activityWeeks_shape cell activityMap_count getTime_greater_def t s
          utc_day_def getDay_def entry_ahead_def entry_a_def del: upt_Suc funpow.simps)
  have 2: "activityWeeks utc_day no_gap 1700000000000 [entry_ahead, entry_a] ! 51 ! 4
       = \<lparr> date = 19677, count = 1, isFuture = True \<rparr>"
    by (simp add: activityWeeks_shape cell activityMap_count getTime_greater_def t s
          utc_day_def getDay_def entry_ahead_def entry_a_def del: upt_Suc funpow.simps)
  have 3: "activityWeeks utc_day no_gap 1700265600000 [check_saturday, check_last_year] ! 0 ! 3
       = \<lparr> date = 19319, count = 1, isFuture = False \<rparr>"
    by (simp add: activityWeeks_shape cell activityMap_count getTime_greater_def t s
          utc_day_def getDay_def check_saturday_def check_last_year_def del: upt_Suc funpow.simps)
  have 4: "activityWeeks utc_day no_gap 1700265600000 [check_saturday, check_last_year] ! 51 ! 6
       = \<lparr> date = 19679, count = 1, isFuture = False \<rparr>"
    by (simp add: activityWeeks_shape cell activityMap_count getTime_greater_def t s
          utc_day_def getDay_def check_saturday_def check_last_year_def del: upt_Suc funpow.simps)
  have d: "utc_day 1700000000000 = 19675" "utc_day 1700265600000 = 19679"
          "utc_day (timestamp check_last_year) = 19679 - 360"
    by (simp_all add: utc_day_def check_last_year_def)
  from h lh d 1 2 y ly 3 4 show ?thesis by blast
qed

text \<open>One entry stamped today, at the same clock reading, in a zone that skips no
  midnight.\<close>

theorem activity_grid_witness:
  "length (activityWeeks utc_day no_gap 1700000000000 [entry_a]) = 52
   \<and> length (concat (activityWeeks utc_day no_gap 1700000000000 [entry_a])) = 364
   \<and> length (filter (\<lambda>c. count c = 1) (concat (activityWeeks utc_day no_gap 1700000000000 [entry_a]))) = 1
   \<and> filter isFuture (concat (activityWeeks utc_day no_gap 1700000000000 [entry_a]))
       = filter (\<lambda>c. 19675 < date c) (concat (activityWeeks utc_day no_gap 1700000000000 [entry_a]))
   \<and> filter (\<lambda>c. 19675 < date c \<and> count c \<noteq> 0)
         (concat (activityWeeks utc_day no_gap 1700000000000 [entry_a])) = []
   \<and> utc_day 1700000000000 - getDay (utc_day 1700000000000) = 19673"
proof -
  let ?G = "activityWeeks utc_day no_gap 1700000000000 [entry_a]"
  have d: "utc_day (timestamp entry_a) = utc_day 1700000000000" by (simp add: entry_a_def)
  have u: "utc_day 1700000000000 = 19675" by (simp add: utc_day_def)
  have s: "utc_day 1700000000000 - getDay (utc_day 1700000000000) = 19673"
    by (simp add: utc_day_def getDay_def)
  note grid = activity_grid [of utc_day no_gap 1700000000000 "[entry_a]", unfolded Let_def]
  have "length ?G = 52" using grid by blast
  moreover have "map date (concat ?G) =
          map (\<lambda>j. utc_day 1700000000000 - getDay (utc_day 1700000000000) - 357 + int j) [0..<364]"
    using grid by blast
  then have "length (map date (concat ?G)) =
          length (map (\<lambda>j. utc_day 1700000000000 - getDay (utc_day 1700000000000) - 357 + int j) [0..<364])"
    by (rule arg_cong)
  then have "length (concat ?G) = 364" by simp
  moreover have "length (filter (\<lambda>e. utc_day (timestamp e) = utc_day 1700000000000) [entry_a]) = 1
          \<and> (\<forall>e\<in>set [entry_a]. utc_day (timestamp e) = utc_day 1700000000000
                \<or> utc_day (timestamp e) < utc_day 1700000000000 - getDay (utc_day 1700000000000) - 357
                \<or> utc_day 1700000000000 - getDay (utc_day 1700000000000) + 6 < utc_day (timestamp e))"
    using d by simp
  then have "length (filter (\<lambda>c. count c = 1) (concat ?G)) = 1"
    using grid by blast
  moreover have "\<forall>d. utc_day 1700000000000 - getDay (utc_day 1700000000000) - 357 \<le> d
                      \<and> d \<le> utc_day 1700000000000 \<longrightarrow> no_gap d = 0"
    by (simp add: no_gap_def)
  then have "\<forall>c\<in>set (concat ?G). isFuture c \<longleftrightarrow> utc_day 1700000000000 < date c"
    using grid by blast
  then have "filter isFuture (concat ?G) = filter (\<lambda>c. 19675 < date c) (concat ?G)"
    unfolding u by (intro filter_cong) auto
  moreover have "\<forall>e\<in>set [entry_a]. utc_day (timestamp e) \<le> utc_day 1700000000000"
    using d by simp
  then have "\<forall>c\<in>set (concat ?G). utc_day 1700000000000 < date c \<longrightarrow> count c = 0"
    using grid by blast
  then have "filter (\<lambda>c. 19675 < date c \<and> count c \<noteq> 0) (concat ?G) = []"
    unfolding u by (simp add: filter_empty_conv)
  ultimately show ?thesis using s by blast
qed

end
